theory Spec2Isabelle
  imports Complex_Main
begin

section \<open>JavaScript values\<close>

text \<open>
  The status manager works on values parsed from JSON and on object literals it builds
  itself. A value is one of the JSON kinds, \<open>undefined\<close>, or a built-in function
  (reading \<open>map\<close> from an array yields \<open>Array.prototype.map\<close>). Numbers are finite
  and modelled as rationals; strings are UTF-8 byte sequences; an object is the list of
  its own properties in insertion order.
\<close>

datatype jsval =
    JUndef
  | JNull
  | JBool bool
  | JNum rat
  | JStr string
  | JArr "jsval list"
  | JObj "(string \<times> jsval) list"
  | JFunc string

type_synonym obj = "(string \<times> jsval) list"

text \<open>Truthiness: \<open>false\<close>, \<open>0\<close>, \<open>""\<close>, \<open>null\<close> and \<open>undefined\<close> are falsy.\<close>

fun truthy :: "jsval \<Rightarrow> bool" where
  "truthy JUndef = False"
| "truthy JNull = False"
| "truthy (JBool b) = b"
| "truthy (JNum x) = (x \<noteq> 0)"
| "truthy (JStr s) = (s \<noteq> [])"
| "truthy (JArr xs) = True"
| "truthy (JObj ps) = True"
| "truthy (JFunc f) = True"

text \<open>\<open>a || b\<close> and \<open>a && b\<close> return one of their operands.\<close>

definition or_js :: "jsval \<Rightarrow> jsval \<Rightarrow> jsval" where
  "or_js a b = (if truthy a then a else b)"

definition and_js :: "jsval \<Rightarrow> jsval \<Rightarrow> jsval" where
  "and_js a b = (if truthy a then b else a)"

definition nullish :: "jsval \<Rightarrow> bool" where
  "nullish v = (v = JNull \<or> v = JUndef)"

text \<open>Own property of an object; an absent property reads as \<open>undefined\<close>.\<close>

definition own_prop :: "obj \<Rightarrow> string \<Rightarrow> jsval" where
  "own_prop ps k = (case map_of ps k of None \<Rightarrow> JUndef | Some v \<Rightarrow> v)"

text \<open>
  \<open>v.k\<close> for the property names this program reads by name. On an object it is the own
  property; on an array only \<open>map\<close> is found (on the prototype); numbers, booleans and
  strings have none of these names. Reading a property of \<open>null\<close> or \<open>undefined\<close>
  raises a TypeError in JavaScript: every function below that reads from an unguarded
  receiver checks \<open>nullish\<close> first, and every other read is behind the guard
  \<open>v && v.k\<close> of the source, so that the value given here for a nullish receiver is
  never used. The properties \<open>length\<close> and \<open>0\<close> are read by \<open>length_gt0\<close> and
  \<open>idx0\<close> further down.
\<close>

fun get :: "jsval \<Rightarrow> string \<Rightarrow> jsval" where
  "get (JObj ps) k = own_prop ps k"
| "get (JArr xs) k = (if k = ''map'' then JFunc ''map'' else JUndef)"
| "get v k = JUndef"

text \<open>\<open>v?.k\<close>\<close>

definition opt_get :: "jsval \<Rightarrow> string \<Rightarrow> jsval" where
  "opt_get v k = (if nullish v then JUndef else get v k)"

text \<open>
  Writing a property, as an object literal with a spread does: \<open>{...o, k: v}\<close> is
  \<open>put k v o\<close>. An existing property keeps its place, a new one goes last.
\<close>

fun put :: "string \<Rightarrow> 'v \<Rightarrow> (string \<times> 'v) list \<Rightarrow> (string \<times> 'v) list" where
  "put k v [] = [(k, v)]"
| "put k v (p # ps) = (if fst p = k then (k, v) # ps else p # put k v ps)"

datatype error =
    TypeError
  | AllApisFailed

section \<open>Conversions of the host\<close>

text \<open>
  Two conversions of the JavaScript engine are parameters: \<open>Number::toString\<close>, and
  whether \<open>StringToNumber\<close> of a string is greater than zero.
\<close>

record host =
  numberToString :: "rat \<Rightarrow> string"
  stringPositive :: "string \<Rightarrow> bool"

fun join_strs :: "string \<Rightarrow> string list \<Rightarrow> string" where
  "join_strs sep [] = []"
| "join_strs sep [s] = s"
| "join_strs sep (s # t # ss) = s @ sep @ join_strs sep (t # ss)"

text \<open>Evaluation from left to right, stopping at the first exception.\<close>

fun sequence :: "(error + 'a) list \<Rightarrow> error + 'a list" where
  "sequence [] = Inr []"
| "sequence (r # rs) =
     (case r of
        Inl e \<Rightarrow> Inl e
      | Inr x \<Rightarrow> (case sequence rs of Inl e \<Rightarrow> Inl e | Inr xs \<Rightarrow> Inr (x # xs)))"

text \<open>
  \<open>ToString\<close>. An array prints its elements joined by commas, \<open>null\<close> and
  \<open>undefined\<close> elements as the empty string. A plain object prints as
  \<open>[object Object]\<close>, unless it has an own property \<open>toString\<close>: a value parsed from
  JSON is never callable, so the conversion to a primitive finds no usable method and
  raises a TypeError.
\<close>

fun toStr :: "host \<Rightarrow> jsval \<Rightarrow> error + string" where
  "toStr h JUndef = Inr ''undefined''"
| "toStr h JNull = Inr ''null''"
| "toStr h (JBool b) = Inr (if b then ''true'' else ''false'')"
| "toStr h (JNum x) = Inr (numberToString h x)"
| "toStr h (JStr s) = Inr s"
| "toStr h (JArr xs) =
     (case sequence (map (\<lambda>x. if x = JNull \<or> x = JUndef then Inr [] else toStr h x) xs) of
        Inl e \<Rightarrow> Inl e
      | Inr ss \<Rightarrow> Inr (join_strs '','' ss))"
| "toStr h (JObj ps) =
     (if map_of ps ''toString'' = None then Inr ''[object Object]'' else Inl TypeError)"
| "toStr h (JFunc f) = Inr (''function '' @ f @ ''() { [native code] }'')"

text \<open>\<open>xs.join(sep)\<close> on the elements of an array.\<close>

definition join :: "host \<Rightarrow> string \<Rightarrow> jsval list \<Rightarrow> error + string" where
  "join h sep xs =
     (case sequence (map (\<lambda>x. if nullish x then Inr [] else toStr h x) xs) of
        Inl e \<Rightarrow> Inl e
      | Inr ss \<Rightarrow> Inr (join_strs sep ss))"

text \<open>
  \<open>v > 0\<close>: the operand is converted to a number; \<open>undefined\<close>, a plain object and a
  function convert to \<open>NaN\<close>, which is not greater than zero.
\<close>

fun gt0 :: "host \<Rightarrow> jsval \<Rightarrow> error + bool" where
  "gt0 h JUndef = Inr False"
| "gt0 h JNull = Inr False"
| "gt0 h (JBool b) = Inr b"
| "gt0 h (JNum x) = Inr (0 < x)"
| "gt0 h (JStr s) = Inr (stringPositive h s)"
| "gt0 h (JArr xs) =
     (case toStr h (JArr xs) of Inl e \<Rightarrow> Inl e | Inr s \<Rightarrow> Inr (stringPositive h s))"
| "gt0 h (JObj ps) = (if map_of ps ''toString'' = None then Inr False else Inl TypeError)"
| "gt0 h (JFunc f) = Inr False"

text \<open>
  \<open>v.length > 0\<close>. Arrays and strings have a length; an object may have an own
  property of that name; \<open>Array.prototype.map\<close> has length 1; numbers and booleans
  have none.
\<close>

fun length_gt0 :: "host \<Rightarrow> jsval \<Rightarrow> error + bool" where
  "length_gt0 h (JArr xs) = Inr (xs \<noteq> [])"
| "length_gt0 h (JStr s) = Inr (s \<noteq> [])"
| "length_gt0 h (JObj ps) = gt0 h (own_prop ps ''length'')"
| "length_gt0 h (JFunc f) = Inr True"
| "length_gt0 h (JNum x) = Inr False"
| "length_gt0 h (JBool b) = Inr False"
| "length_gt0 h JNull = Inl TypeError"
| "length_gt0 h JUndef = Inl TypeError"

text \<open>
  \<open>v[0]\<close>: the first element of an array, the own property \<open>0\<close> of an object,
  and on a string its first UTF-16 code unit. A character of one to three bytes in UTF-8
  is one code unit. A character of four bytes (a code point \<open>cp\<close> beyond U+FFFF) is
  two code units in JavaScript, and \<open>v[0]\<close> is the first of them alone, the high
  surrogate \<open>0xD800 + (cp - 0x10000) div 0x400\<close>; it is written here in the byte
  scheme of any three-byte code point, which for \<open>w = (cp - 0x10000) div 0x400\<close> is
  \<open>ED\<close>, \<open>A0 + w div 64\<close>, \<open>80 + w mod 64\<close>. A four-byte sequence cut short,
  which no JavaScript string encodes to, is left as it is.
\<close>

definition utf8_width :: "char \<Rightarrow> nat" where
  "utf8_width c =
     (let n = (of_char c :: nat)
      in if n < 0x80 then 1 else if n < 0xE0 then 2 else if n < 0xF0 then 3 else 4)"

definition first_code_unit :: "string \<Rightarrow> string" where
  "first_code_unit s =
     (case s of
        [] \<Rightarrow> []
      | b0 # rest \<Rightarrow>
          if (of_char b0 :: nat) < 0xF0 then take (utf8_width b0) s
          else
            (case rest of
               b1 # b2 # b3 # _ \<Rightarrow>
                 (let cp = (of_char b0 mod 8) * 0x40000 + (of_char b1 mod 64) * 0x1000
                           + (of_char b2 mod 64) * 0x40 + (of_char b3 mod 64 :: nat);
                      w = (cp - 0x10000) div 0x400
                  in [CHR 0xED, char_of (0xA0 + w div 64), char_of (0x80 + w mod 64)])
             | _ \<Rightarrow> s))"

fun idx0 :: "jsval \<Rightarrow> jsval" where
  "idx0 (JArr xs) = (case xs of [] \<Rightarrow> JUndef | x # _ \<Rightarrow> x)"
| "idx0 (JStr s) = (case s of [] \<Rightarrow> JUndef | _ # _ \<Rightarrow> JStr (first_code_unit s))"
| "idx0 (JObj ps) = own_prop ps ''0''"
| "idx0 v = JUndef"

section \<open>Merging the two status APIs\<close>

text \<open>
  The two default texts of the source, in UTF-8: the two-character word for "unknown"
  (U+672A U+77E5) and the two-character word for "survival" (U+751F U+5B58).
\<close>

definition unknown_text :: string where
  "unknown_text = [CHR 0xE6, CHR 0x9C, CHR 0xAA, CHR 0xE7, CHR 0x9F, CHR 0xA5]"

definition survival_text :: string where
  "survival_text = [CHR 0xE7, CHR 0x94, CHR 0x9F, CHR 0xE5, CHR 0xAD, CHR 0x98]"

text \<open>
  \<open>convertOldApiToNewApiFormat(oldApiData)\<close>. The first read, \<open>oldApiData.motd\<close>,
  raises on \<open>null\<close>. When \<open>motd.clean\<close> has a positive length but is not an array,
  \<open>clean.join\<close> is not a function. The template literal converts each line with
  \<open>ToString\<close>.
\<close>

definition convertOldApiToNewApiFormat :: "host \<Rightarrow> jsval \<Rightarrow> error + obj" where
  \<open>convertOldApiToNewApiFormat h oldApiData =
     (if nullish oldApiData then Inl TypeError
      else
        let motd = get oldApiData ''motd'';
            clean = get motd ''clean'';
            converted = (\<lambda>motdClean motdHtml.
              [(''code'', JNum 200),
               (''online'', or_js (get oldApiData ''online'') (JBool False)),
               (''ip'', or_js (get oldApiData ''ip'') (JStr unknown_text)),
               (''port'', or_js (get oldApiData ''port'') (JStr unknown_text)),
               (''hostname'', or_js (get oldApiData ''hostname'') (JStr unknown_text)),
               (''players'',
                  if truthy (get oldApiData ''players'')
                  then get (get oldApiData ''players'') ''online'' else JNum 0),
               (''max_players'',
                  if truthy (get oldApiData ''players'')
                  then get (get oldApiData ''players'') ''max'' else JNum 0),
               (''version'', or_js (get oldApiData ''version'') (JStr unknown_text)),
               (''motd_clean'', JStr motdClean),
               (''motd_html'', JStr motdHtml),
               (''favicon_url'', or_js (get oldApiData ''icon'') JNull)])
        in case (if truthy motd \<and> truthy clean then length_gt0 h clean else Inr False) of
             Inl e \<Rightarrow> Inl e
           | Inr False \<Rightarrow> Inr (converted [] [])
           | Inr True \<Rightarrow>
               (case clean of
                  JArr ls \<Rightarrow>
                    (case join h [CHR 0x0A] ls of
                       Inl e \<Rightarrow> Inl e
                     | Inr motdClean \<Rightarrow>
                         (case sequence (map (toStr h) ls) of
                            Inl e \<Rightarrow> Inl e
                          | Inr ss \<Rightarrow>
                              Inr (converted motdClean
                                     (join_strs ''<br>''
                                        (map (\<lambda>line. ''<span style="color: #ffffff">''
                                                       @ line @ ''</span>'') ss)))))
                | _ \<Rightarrow> Inl TypeError))\<close>

text \<open>
  \<open>processServerData(newApiData, oldApiData)\<close>. The first read, \<open>newApiData.online\<close>,
  raises on \<open>null\<close>; every read from \<open>oldApiData\<close> is guarded. The ping is
  \<open>newApiData.online ? null : null\<close>.
\<close>

definition processServerData :: "jsval \<Rightarrow> jsval \<Rightarrow> error + obj" where
  "processServerData newApiData oldApiData =
     (if nullish newApiData then Inl TypeError
      else
        let pingValue = (if truthy (get newApiData ''online'') then JNull else JNull);
            oldPlayers = get oldApiData ''players'';
            oldMotd = get oldApiData ''motd'';
            playersList =
              (if truthy (and_js (and_js oldApiData oldPlayers) (get oldPlayers ''list''))
               then get oldPlayers ''list'' else JArr []);
            icon =
              (if truthy (and_js oldApiData (get oldApiData ''icon''))
               then get oldApiData ''icon''
               else if truthy (get newApiData ''favicon_url'')
               then get newApiData ''favicon_url'' else JNull);
            playersOnline =
              or_js (get newApiData ''players'')
                (if truthy (and_js oldApiData oldPlayers)
                 then get oldPlayers ''online'' else JNum 0);
            playersMax =
              or_js (get newApiData ''max_players'')
                (if truthy (and_js oldApiData oldPlayers)
                 then get oldPlayers ''max'' else JNum 0)
        in Inr
          [(''online'', or_js (get newApiData ''online'') (JBool False)),
           (''ip'', or_js (or_js (get newApiData ''ip'')
                      (and_js oldApiData (get oldApiData ''ip''))) (JStr unknown_text)),
           (''port'', or_js (or_js (get newApiData ''port'')
                      (and_js oldApiData (get oldApiData ''port''))) (JStr unknown_text)),
           (''hostname'', or_js (or_js (get newApiData ''hostname'')
                      (and_js oldApiData (get oldApiData ''hostname''))) (JStr unknown_text)),
           (''icon'', icon),
           (''version'', or_js (or_js (get newApiData ''version'')
                      (and_js oldApiData (get oldApiData ''version''))) (JStr unknown_text)),
           (''protocol'',
              or_js (and_js oldApiData (get oldApiData ''protocol'')) (JStr unknown_text)),
           (''protocolName'',
              or_js (and_js oldApiData (get oldApiData ''protocolName'')) (JStr unknown_text)),
           (''players'', JObj
              [(''online'', playersOnline),
               (''max'', playersMax),
               (''list'', playersList)]),
           (''motd'', JObj
              [(''raw'', or_js (and_js (and_js oldApiData oldMotd) (get oldMotd ''raw''))
                           (JArr [])),
               (''clean'', JArr
                  [or_js (or_js (get newApiData ''motd_clean'')
                            (and_js (and_js (and_js oldApiData oldMotd) (get oldMotd ''clean''))
                               (idx0 (get oldMotd ''clean''))))
                     (JStr [])]),
               (''html'', JArr
                  [or_js (or_js (get newApiData ''motd_html'')
                            (and_js (and_js (and_js oldApiData oldMotd) (get oldMotd ''html''))
                               (idx0 (get oldMotd ''html''))))
                     (JStr [])])]),
           (''debug'', JObj
              [(''ping'', pingValue),
               (''query'',
                  or_js (and_js (and_js oldApiData (get oldApiData ''debug''))
                           (get (get oldApiData ''debug'') ''query''))
                    (JBool False)),
               (''cacheHit'', JBool False)]),
           (''software'',
              or_js (and_js oldApiData (get oldApiData ''software'')) (JStr unknown_text)),
           (''gamemode'',
              or_js (and_js oldApiData (get oldApiData ''gamemode'')) (JStr survival_text)),
           (''map'', or_js (and_js oldApiData (get oldApiData ''map'')) (JStr unknown_text)),
           (''plugins'', or_js (and_js oldApiData (get oldApiData ''plugins'')) (JArr []))])"

text \<open>
  The network. A \<open>fetch\<close> rejects (\<open>None\<close>) or resolves to a response with its
  \<open>ok\<close> flag and the outcome of \<open>json()\<close> (\<open>None\<close> when the body is not JSON). Each
  API is asked at most once per refresh, so the network is one answer per API and address.
\<close>

datatype response = Response (ok: bool) (json: "jsval option")

record network =
  newApi :: "string \<Rightarrow> response option"
  oldApi :: "string \<Rightarrow> response option"

datatype request = NewApiRequest string | OldApiRequest string

text \<open>What the first \<open>try\<close> block leaves in \<open>newApiData\<close>.\<close>

definition newApiData_of :: "response option \<Rightarrow> jsval" where
  "newApiData_of r =
     (case r of
        Some (Response True (Some v)) \<Rightarrow> v
      | _ \<Rightarrow> JNull)"

definition isNewApiValid :: "jsval \<Rightarrow> bool" where
  "isNewApiValid newApiData =
     (truthy newApiData \<and> get newApiData ''code'' = JNum 200
      \<and> get newApiData ''online'' \<noteq> JUndef)"

text \<open>
  \<open>fetchServerStatus(serverAddress)\<close>. In the fallback branch every exception inside
  the \<open>try\<close> is replaced by the one error of the \<open>catch\<close>.
\<close>

definition fetchServerStatus ::
  "host \<Rightarrow> network \<Rightarrow> string \<Rightarrow> (error + obj) \<times> request list" where
  "fetchServerStatus h net serverAddress =
     (let newApiData = newApiData_of (newApi net serverAddress)
      in if isNewApiValid newApiData then
           (if truthy (get newApiData ''online'') then
              (let oldApiData =
                 (case oldApi net serverAddress of
                    Some (Response True (Some v)) \<Rightarrow> v
                  | _ \<Rightarrow> JNull)
               in (processServerData newApiData oldApiData,
                   [NewApiRequest serverAddress, OldApiRequest serverAddress]))
            else (processServerData newApiData JNull, [NewApiRequest serverAddress]))
         else
           ((case oldApi net serverAddress of
               Some (Response True (Some oldApiData)) \<Rightarrow>
                 (case convertOldApiToNewApiFormat h oldApiData of
                    Inl e \<Rightarrow> Inl AllApisFailed
                  | Inr fallbackData \<Rightarrow>
                      (case processServerData (JObj fallbackData) oldApiData of
                         Inl e \<Rightarrow> Inl AllApisFailed
                       | Inr processedData \<Rightarrow> Inr processedData))
             | _ \<Rightarrow> Inl AllApisFailed),
            [NewApiRequest serverAddress, OldApiRequest serverAddress]))"

text \<open>
  \<open>renderMOTD(motdHtml)\<close> of the two-API version: the lines already are markup and
  are joined as they are.
\<close>

fun isArray :: "jsval \<Rightarrow> bool" where
  "isArray (JArr xs) = True"
| "isArray v = False"

fun elements :: "jsval \<Rightarrow> jsval list" where
  "elements (JArr xs) = xs"
| "elements v = []"

definition renderMOTD :: "host \<Rightarrow> jsval \<Rightarrow> error + string" where
  "renderMOTD h motdHtml =
     (if \<not> truthy motdHtml \<or> \<not> isArray motdHtml then Inr []
      else join h ''<br>'' (elements motdHtml))"

section \<open>The single-API version (\<open>script.js\<close>)\<close>

text \<open>\<open>Math.round\<close>: the nearest integer, a half rounding up.\<close>

definition js_round :: "rat \<Rightarrow> rat" where
  "js_round x = of_int \<lfloor>x + 1 / 2\<rfloor>"

text \<open>
  \<open>processServerData(data)\<close> of \<open>script.js\<close>; the parameter is \<open>dat\<close> here. The
  first read, \<open>data.debug\<close>, raises on \<open>null\<close>.
\<close>

definition processServerData_script :: "jsval \<Rightarrow> error + obj" where
  "processServerData_script dat =
     (if nullish dat then Inl TypeError
      else
        let ping0 = opt_get (get dat ''debug'') ''ping'';
            pingValue =
              (if ping0 = JBool True then JNull
               else case ping0 of
                      JNum x \<Rightarrow> JNum (js_round x)
                    | _ \<Rightarrow> if ping0 = JBool False \<or> ping0 = JUndef then JNull else ping0)
        in Inr
          [(''online'', or_js (get dat ''online'') (JBool False)),
           (''ip'', or_js (get dat ''ip'') (JStr unknown_text)),
           (''port'', or_js (get dat ''port'') (JStr unknown_text)),
           (''hostname'', or_js (get dat ''hostname'') (JStr unknown_text)),
           (''icon'', or_js (get dat ''icon'') JNull),
           (''version'', or_js (get dat ''version'') (JStr unknown_text)),
           (''protocol'', or_js (get dat ''protocol'') (JStr unknown_text)),
           (''protocolName'', or_js (get dat ''protocol_name'') (JStr unknown_text)),
           (''players'', JObj
              [(''online'', or_js (opt_get (get dat ''players'') ''online'') (JNum 0)),
               (''max'', or_js (opt_get (get dat ''players'') ''max'') (JNum 0)),
               (''list'', or_js (opt_get (get dat ''players'') ''list'') (JArr []))]),
           (''motd'', JObj
              [(''raw'', or_js (opt_get (get dat ''motd'') ''raw'') (JArr [])),
               (''clean'', or_js (opt_get (get dat ''motd'') ''clean'') (JArr [])),
               (''html'', or_js (opt_get (get dat ''motd'') ''html'') (JArr []))]),
           (''debug'', JObj
              [(''ping'', pingValue),
               (''query'', or_js (opt_get (get dat ''debug'') ''query'') (JBool False)),
               (''cacheHit'', or_js (opt_get (get dat ''debug'') ''cachehit'') (JBool False))]),
           (''software'', or_js (get dat ''software'') (JStr unknown_text)),
           (''gamemode'', or_js (get dat ''gamemode'') (JStr survival_text)),
           (''map'', or_js (get dat ''map'') (JStr unknown_text)),
           (''plugins'', or_js (opt_get (get dat ''plugins'') ''names'') (JArr []))])"

text \<open>
  \<open>renderMOTD(motdHtml)\<close> of \<open>script.js\<close>. The section sign is the two bytes
  \<open>C2 A7\<close>; the character class \<open>[0-9a-fk-or]\<close> is the digits, \<open>a\<close> to \<open>f\<close>,
  \<open>k\<close> to \<open>o\<close>, and \<open>r\<close>. A global \<open>replace\<close> scans from the left and resumes after
  each match.
\<close>

definition color_code :: "char \<Rightarrow> bool" where
  "color_code c = (c \<in> set ''0123456789abcdefklmnor'')"

fun replace_codes :: "string \<Rightarrow> string" where
  \<open>replace_codes (a # b # c # s) =
     (if a = CHR 0xC2 \<and> b = CHR 0xA7 \<and> color_code c
      then ''</span><span class="mc-color-'' @ [c] @ ''">'' @ replace_codes s
      else a # replace_codes (b # c # s))\<close>
| \<open>replace_codes s = s\<close>

fun replace_reset :: "string \<Rightarrow> string" where
  "replace_reset (a # b # c # s) =
     (if a = CHR 0xC2 \<and> b = CHR 0xA7 \<and> c = CHR ''r''
      then ''</span><span>'' @ replace_reset s
      else a # replace_reset (b # c # s))"
| "replace_reset s = s"

definition startsWith :: "string \<Rightarrow> string \<Rightarrow> bool" where
  "startsWith s p = (take (length p) s = p)"

definition endsWith :: "string \<Rightarrow> string \<Rightarrow> bool" where
  "endsWith s p = (length p \<le> length s \<and> drop (length s - length p) s = p)"

text \<open>The body of the arrow function applied to each line.\<close>

definition render_line :: "string \<Rightarrow> string" where
  "render_line line =
     (let processedLine = replace_reset (replace_codes line);
          processedLine =
            (if \<not> startsWith processedLine ''<span'' then ''<span>'' @ processedLine
             else processedLine);
          processedLine =
            (if \<not> endsWith processedLine ''</span>'' then processedLine @ ''</span>''
             else processedLine)
      in processedLine)"

text \<open>
  An element that is not a string has no method \<open>replace\<close>, and the call raises a
  TypeError.
\<close>

definition renderMOTD_script :: "jsval \<Rightarrow> error + string" where
  "renderMOTD_script motdHtml =
     (if \<not> truthy motdHtml \<or> \<not> isArray motdHtml then Inr []
      else
        case sequence (map (\<lambda>line. case line of JStr s \<Rightarrow> Inr (render_line s)
                                              | _ \<Rightarrow> Inl TypeError)
                         (elements motdHtml)) of
          Inl e \<Rightarrow> Inl e
        | Inr ls \<Rightarrow> Inr (join_strs ''<br>'' ls))"

text \<open>
  Span markup is balanced when, reading from the left, every \<open></span>\<close> closes a
  span opened before it and no span is left open at the end. The first argument is the
  number of spans open so far.
\<close>

fun spans_balanced :: "nat \<Rightarrow> string \<Rightarrow> bool" where
  "spans_balanced d [] = (d = 0)"
| "spans_balanced d (c # cs) =
     (if take 7 (c # cs) = ''</span>'' then 0 < d \<and> spans_balanced (d - 1) cs
      else if take 5 (c # cs) = ''<span'' then spans_balanced (Suc d) cs
      else spans_balanced d cs)"

definition section_sign :: string where
  "section_sign = [CHR 0xC2, CHR 0xA7]"

section \<open>The cache: \<open>getServerStatus\<close>\<close>

text \<open>
  \<open>this.cache\<close> is a \<open>Map\<close> from address to \<open>{data, timestamp}\<close>; \<open>Date.now()\<close>
  is an integer number of milliseconds. The data is a status record here, and the
  address of one in the store model further down.
\<close>

record 'd entry =
  data :: 'd
  timestamp :: int

type_synonym cache = "string \<rightharpoonup> obj entry"

definition cacheTimeout :: int where
  "cacheTimeout = 30000"

text \<open>
  \<open>getServerStatus\<close> is the same text in both source files; they differ in
  \<open>this.fetchServerStatus\<close>, which is the parameter \<open>fetchStatus\<close> here. A fetch returns what the
  \<open>await\<close> yields (\<open>Inl\<close> when it throws) together with the network requests it
  issued. The result is the returned status or the thrown error, the cache afterwards,
  and the requests issued by this call.
\<close>

definition getServerStatus ::
  "(string \<Rightarrow> (error + obj) \<times> 'r list) \<Rightarrow> cache \<Rightarrow> int \<Rightarrow> string
     \<Rightarrow> (error + obj) \<times> cache \<times> 'r list" where
  "getServerStatus fetchStatus cache now serverAddress =
     (let cached = cache serverAddress;
          refresh =
            (case fetchStatus serverAddress of
               (Inr freshData, reqs) \<Rightarrow>
                 (Inr (put ''fromCache'' (JBool False) freshData),
                  cache(serverAddress \<mapsto> \<lparr>data = freshData, timestamp = now\<rparr>),
                  reqs)
             | (Inl err, reqs) \<Rightarrow>
                 (case cached of
                    Some c \<Rightarrow>
                      (Inr (put ''error'' (JBool True) (put ''fromCache'' (JBool True) (data c))),
                       cache, reqs)
                  | None \<Rightarrow> (Inl err, cache, reqs)))
      in case cached of
           Some c \<Rightarrow>
             if now - timestamp c < cacheTimeout
             then (Inr (put ''fromCache'' (JBool True) (data c)), cache, [])
             else refresh
         | None \<Rightarrow> refresh)"

text \<open>
  The caches the manager can be in: empty at construction, changed only by calls of
  \<open>getServerStatus\<close>, each with the answers the network gives at that time.
\<close>

inductive reachable :: "host \<Rightarrow> cache \<Rightarrow> bool" for h :: host where
  initial: "reachable h Map.empty"
| call: "reachable h c \<Longrightarrow>
         getServerStatus (fetchServerStatus h net) c now a = (r, c', reqs) \<Longrightarrow>
         reachable h c'"

text \<open>
  The fields of a status that are never \<open>undefined\<close>: the top-level fields of the
  merged record, the player list, the three MOTD arrays and the three debug fields.
\<close>

definition populated :: "obj \<Rightarrow> bool" where
  "populated s =
     (list_all (\<lambda>k. own_prop s k \<noteq> JUndef)
        [''online'', ''ip'', ''port'', ''hostname'', ''icon'', ''version'', ''protocol'',
         ''protocolName'', ''players'', ''motd'', ''debug'', ''software'', ''gamemode'',
         ''map'', ''plugins'']
      \<and> get (own_prop s ''players'') ''list'' \<noteq> JUndef
      \<and> list_all (\<lambda>k. get (own_prop s ''motd'') k \<noteq> JUndef) [''raw'', ''clean'', ''html'']
      \<and> list_all (\<lambda>k. get (own_prop s ''debug'') k \<noteq> JUndef)
            [''ping'', ''query'', ''cacheHit''])"

section \<open>Objects in the store\<close>

text \<open>
  The records above are values. In the program a status is an object: what a caller
  holds and what the cache holds are references, and two references may lead to the same
  object. Here the store is the list of all objects and arrays allocated so far, a
  reference is an index into it, and a property holds a primitive value or a reference.
\<close>

datatype hval = HPrim jsval | HRef nat

datatype cell = ObjCell "(string \<times> hval) list" | ArrCell "hval list"

type_synonym store = "cell list"

text \<open>
  Building a value in the store, as evaluating an object literal or parsing JSON does:
  every object and every array becomes a new cell.
\<close>

fun alloc :: "jsval \<Rightarrow> store \<Rightarrow> hval \<times> store"
  and alloc_elems :: "jsval list \<Rightarrow> store \<Rightarrow> hval list \<times> store"
  and alloc_props :: "(string \<times> jsval) list \<Rightarrow> store \<Rightarrow> (string \<times> hval) list \<times> store"
where
  "alloc (JArr xs) st =
     (case alloc_elems xs st of (vs, st') \<Rightarrow> (HRef (length st'), st' @ [ArrCell vs]))"
| "alloc (JObj ps) st =
     (case alloc_props ps st of (fs, st') \<Rightarrow> (HRef (length st'), st' @ [ObjCell fs]))"
| "alloc JUndef st = (HPrim JUndef, st)"
| "alloc JNull st = (HPrim JNull, st)"
| "alloc (JBool b) st = (HPrim (JBool b), st)"
| "alloc (JNum x) st = (HPrim (JNum x), st)"
| "alloc (JStr s) st = (HPrim (JStr s), st)"
| "alloc (JFunc f) st = (HPrim (JFunc f), st)"
| "alloc_elems [] st = ([], st)"
| "alloc_elems (x # xs) st =
     (case alloc x st of (v, st') \<Rightarrow>
        (case alloc_elems xs st' of (vs, st'') \<Rightarrow> (v # vs, st'')))"
| "alloc_props [] st = ([], st)"
| "alloc_props (p # ps) st =
     (case alloc (snd p) st of (v, st') \<Rightarrow>
        (case alloc_props ps st' of (fs, st'') \<Rightarrow> ((fst p, v) # fs, st'')))"

text \<open>The property names of an array's elements are their indices in decimal.\<close>

fun decimal :: "nat \<Rightarrow> string" where
  "decimal n =
     (if n < 10 then [char_of (48 + n)]
      else decimal (n div 10) @ [char_of (48 + n mod 10)])"

text \<open>The own enumerable properties of the object at an address, as a spread reads them.\<close>

definition own_props :: "store \<Rightarrow> nat \<Rightarrow> (string \<times> hval) list" where
  "own_props st a =
     (if a < length st
      then (case st ! a of
              ObjCell fs \<Rightarrow> fs
            | ArrCell vs \<Rightarrow> zip (map decimal [0..<length vs]) vs)
      else [])"

text \<open>
  \<open>{...src, k1: v1, k2: v2}\<close>: a new object with the properties of \<open>src\<close>, each
  holding what it holds in \<open>src\<close> (a reference is copied as a reference), and then the
  listed properties. The result is the address of the new object.
\<close>

definition spread :: "nat \<Rightarrow> (string \<times> hval) list \<Rightarrow> store \<Rightarrow> nat \<times> store" where
  "spread src extra st =
     (length st, st @ [ObjCell (fold (\<lambda>p. put (fst p) (snd p)) extra (own_props st src))])"

text \<open>
  A refresh in the store: the record that \<open>fetchServerStatus\<close> returns is a new object
  whose nested records and arrays are new objects.
\<close>

definition fetch_into_store ::
  "(string \<Rightarrow> (error + obj) \<times> 'r list) \<Rightarrow> string \<Rightarrow> store \<Rightarrow> (error + nat) \<times> store" where
  "fetch_into_store fetchStatus serverAddress st =
     (case fst (fetchStatus serverAddress) of
        Inl err \<Rightarrow> (Inl err, st)
      | Inr freshData \<Rightarrow>
          (case alloc_props freshData st of
             (fs, st') \<Rightarrow> (Inr (length st'), st' @ [ObjCell fs])))"

text \<open>
  \<open>getServerStatus\<close> on the store: the cache entry holds the address of its data, the
  caller receives the address of the object a spread creates.
\<close>

definition getServerStatus_store ::
  "(string \<Rightarrow> store \<Rightarrow> (error + nat) \<times> store) \<Rightarrow> (string \<rightharpoonup> nat entry) \<Rightarrow> store
     \<Rightarrow> int \<Rightarrow> string \<Rightarrow> (error + nat) \<times> (string \<rightharpoonup> nat entry) \<times> store" where
  "getServerStatus_store fetchStatus cache st now serverAddress =
     (let cached = cache serverAddress;
          refresh =
            (case fetchStatus serverAddress st of
               (Inr freshData, st1) \<Rightarrow>
                 (case spread freshData [(''fromCache'', HPrim (JBool False))] st1 of
                    (r, st2) \<Rightarrow>
                      (Inr r,
                       cache(serverAddress \<mapsto> \<lparr>data = freshData, timestamp = now\<rparr>),
                       st2))
             | (Inl err, st1) \<Rightarrow>
                 (case cached of
                    Some c \<Rightarrow>
                      (case spread (data c)
                              [(''fromCache'', HPrim (JBool True)),
                               (''error'', HPrim (JBool True))] st1 of
                         (r, st2) \<Rightarrow> (Inr r, cache, st2))
                  | None \<Rightarrow> (Inl err, cache, st1)))
      in case cached of
           Some c \<Rightarrow>
             if now - timestamp c < cacheTimeout
             then (case spread (data c) [(''fromCache'', HPrim (JBool True))] st of
                     (r, st') \<Rightarrow> (Inr r, cache, st'))
             else refresh
         | None \<Rightarrow> refresh)"


text \<open>
  What can be read through a reference, followed to a depth of \<open>n\<close> objects: the value
  an observer of the cache entry sees.
\<close>

fun deep :: "nat \<Rightarrow> store \<Rightarrow> hval \<Rightarrow> jsval" where
  "deep n st (HPrim v) = v"
| "deep 0 st (HRef a) = JUndef"
| "deep (Suc n) st (HRef a) =
     (if a < length st
      then (case st ! a of
              ObjCell fs \<Rightarrow> JObj (map (\<lambda>p. (fst p, deep n st (snd p))) fs)
            | ArrCell vs \<Rightarrow> JArr (map (deep n st) vs))
      else JUndef)"

text \<open>
  A store has no dangling reference when every reference in it is the address of a cell
  of the store; a cache lies in a store when every entry's data does.
\<close>

fun refs_below :: "nat \<Rightarrow> hval \<Rightarrow> bool" where
  "refs_below b (HPrim v) = True"
| "refs_below b (HRef a) = (a < b)"

fun cell_below :: "nat \<Rightarrow> cell \<Rightarrow> bool" where
  "cell_below b (ObjCell fs) = list_all (\<lambda>p. refs_below b (snd p)) fs"
| "cell_below b (ArrCell vs) = list_all (refs_below b) vs"

definition closed_store :: "store \<Rightarrow> bool" where
  "closed_store st = list_all (cell_below (length st)) st"


text \<open>
  The object at an address reads as a record when following its references deep enough
  gives that record. A cache of addresses represents a cache of records when they have
  the same entries with the same timestamps and every address reads as the record.
\<close>

definition reads_as :: "store \<Rightarrow> nat \<Rightarrow> obj \<Rightarrow> bool" where
  "reads_as st a s = (\<exists>m. \<forall>n. m \<le> n \<longrightarrow> deep n st (HRef a) = JObj s)"

definition cache_rel :: "cache \<Rightarrow> (string \<rightharpoonup> nat entry) \<Rightarrow> store \<Rightarrow> bool" where
  "cache_rel cv c st =
     (\<forall>b. (cv b = None \<longrightarrow> c b = None)
          \<and> (\<forall>ev. cv b = Some ev \<longrightarrow>
                 (\<exists>e. c b = Some e \<and> timestamp e = timestamp ev \<and> data e < length st
                      \<and> reads_as st (data e) (data ev))))"

section \<open>Example inputs\<close>

text \<open>
  A host for the examples below, none of which prints a number or compares a string with
  zero.
\<close>

definition example_host :: host where
  "example_host = \<lparr>numberToString = (\<lambda>x. ''0''), stringPositive = (\<lambda>s. False)\<rparr>"


text \<open>The new API reports the server online; the old API supplies a player list.\<close>

definition both_apis :: network where
  "both_apis =
     \<lparr>newApi = (\<lambda>a. Some (Response True (Some (JObj
        [(''code'', JNum 200), (''online'', JBool True)])))),
      oldApi = (\<lambda>a. Some (Response True (Some (JObj
        [(''players'', JObj [(''list'', JArr [JStr ''Alice'', JStr ''Bob''])])]))))\<rparr>"


text \<open>
  The record merged from the answers of \<open>both_apis\<close>, and the cache that holds it
  since the time 1000.
\<close>

definition example_status :: obj where
  "example_status =
     [(''online'', JBool True),
      (''ip'', JStr unknown_text),
      (''port'', JStr unknown_text),
      (''hostname'', JStr unknown_text),
      (''icon'', JNull),
      (''version'', JStr unknown_text),
      (''protocol'', JStr unknown_text),
      (''protocolName'', JStr unknown_text),
      (''players'', JObj
         [(''online'', JUndef), (''max'', JUndef),
          (''list'', JArr [JStr ''Alice'', JStr ''Bob''])]),
      (''motd'', JObj
         [(''raw'', JArr []), (''clean'', JArr [JStr []]), (''html'', JArr [JStr []])]),
      (''debug'', JObj
         [(''ping'', JNull), (''query'', JBool False), (''cacheHit'', JBool False)]),
      (''software'', JStr unknown_text),
      (''gamemode'', JStr survival_text),
      (''map'', JStr unknown_text),
      (''plugins'', JArr [])]"

definition example_cache :: cache where
  "example_cache =
     [''play.simpfun.cn:30786'' \<mapsto> \<lparr>data = example_status, timestamp = 1000\<rparr>]"



text \<open>The new API is unreachable; the old API reports a ping of 42.7 ms.\<close>

definition old_api_with_ping :: network where
  "old_api_with_ping =
     \<lparr>newApi = (\<lambda>a. None),
      oldApi = (\<lambda>a. Some (Response True (Some (JObj
                  [(''online'', JBool True),
                   (''debug'', JObj [(''ping'', JNum (427 / 10))])]))))\<rparr>"

text \<open>The record of a server the new API reports offline: every field its default.\<close>

definition default_status :: obj where
  "default_status =
     [(''online'', JBool False),
      (''ip'', JStr unknown_text),
      (''port'', JStr unknown_text),
      (''hostname'', JStr unknown_text),
      (''icon'', JNull),
      (''version'', JStr unknown_text),
      (''protocol'', JStr unknown_text),
      (''protocolName'', JStr unknown_text),
      (''players'', JObj [(''online'', JNum 0), (''max'', JNum 0), (''list'', JArr [])]),
      (''motd'', JObj [(''raw'', JArr []), (''clean'', JArr [JStr []]),
                       (''html'', JArr [JStr []])]),
      (''debug'', JObj [(''ping'', JNull), (''query'', JBool False),
                        (''cacheHit'', JBool False)]),
      (''software'', JStr unknown_text),
      (''gamemode'', JStr survival_text),
      (''map'', JStr unknown_text),
      (''plugins'', JArr [])]"

section \<open>Properties\<close>

lemma own_prop_put: "own_prop (put k v ps) k' = (if k' = k then v else own_prop ps k')"
  by (induction ps) (auto simp: own_prop_def)

text \<open>
  The first code unit of a string: of the character U+1F600 (four bytes) the high
  surrogate U+D83D, of a three-byte character the character, of \<open>Hello\<close> the
  letter \<open>H\<close>.
\<close>

lemma idx0_examples:
  "idx0 (JStr [CHR 0xF0, CHR 0x9F, CHR 0x98, CHR 0x80, CHR ''a''])
     = JStr [CHR 0xED, CHR 0xA0, CHR 0xBD]
   \<and> idx0 (JStr [CHR 0xE6, CHR 0x9C, CHR 0xAA, CHR 0xE7, CHR 0x9F, CHR 0xA5])
       = JStr [CHR 0xE6, CHR 0x9C, CHR 0xAA]
   \<and> idx0 (JStr ''Hello'') = JStr ''H''
   \<and> idx0 (JStr []) = JUndef
   \<and> idx0 (JArr [JStr ''A Minecraft Server'', JStr ''x'']) = JStr ''A Minecraft Server''"
  by (simp add: first_code_unit_def utf8_width_def char_of_def bit_iff_odd)

text \<open>
  C1. \<open>getServerStatus\<close> throws exactly when no cache entry exists for the address and
  the refresh throws. When an entry exists that is too old to be served directly (of any
  age from the timeout on) and the refresh throws, the call returns the entry's data with
  \<open>fromCache\<close> and \<open>error\<close> both set to \<open>true\<close>, and leaves the cache as it was.
\<close>

theorem getServerStatus_throws_iff_no_cache:
  "(isl (fst (getServerStatus f c now a)) \<longleftrightarrow> c a = None \<and> isl (fst (f a)))
   \<and> (\<forall>e err reqs.
         c a = Some e \<and> \<not> now - timestamp e < cacheTimeout \<and> f a = (Inl err, reqs)
         \<longrightarrow> getServerStatus f c now a =
               (Inr (put ''error'' (JBool True) (put ''fromCache'' (JBool True) (data e))),
                c, reqs)
             \<and> own_prop (put ''error'' (JBool True) (put ''fromCache'' (JBool True) (data e)))
                 ''fromCache'' = JBool True
             \<and> own_prop (put ''error'' (JBool True) (put ''fromCache'' (JBool True) (data e)))
                 ''error'' = JBool True
             \<and> (\<forall>k. k \<noteq> ''fromCache'' \<and> k \<noteq> ''error'' \<longrightarrow>
                   own_prop (put ''error'' (JBool True) (put ''fromCache'' (JBool True) (data e))) k
                   = own_prop (data e) k))"
  by (auto simp: getServerStatus_def Let_def own_prop_put split: option.splits sum.splits prod.splits)

theorem getServerStatus_throws_iff_no_cache_witness:
  "[''mc.example.org:25565'' \<mapsto> \<lparr>data = [(''online'', JBool True)], timestamp = 1000\<rparr>]
     ''mc.example.org:25565''
     = Some \<lparr>data = [(''online'', JBool True)], timestamp = 1000\<rparr>
   \<and> \<not> 31000 - timestamp \<lparr>data = [(''online'', JBool True)], timestamp = 1000\<rparr> < cacheTimeout
   \<and> getServerStatus (\<lambda>a. (Inl AllApisFailed, [OldApiRequest a]))
         [''mc.example.org:25565'' \<mapsto> \<lparr>data = [(''online'', JBool True)], timestamp = 1000\<rparr>]
         31000 ''mc.example.org:25565''
       = (Inr [(''online'', JBool True), (''fromCache'', JBool True), (''error'', JBool True)],
          [''mc.example.org:25565'' \<mapsto> \<lparr>data = [(''online'', JBool True)], timestamp = 1000\<rparr>],
          [OldApiRequest ''mc.example.org:25565''])"
  using getServerStatus_throws_iff_no_cache
    [of "\<lambda>a. (Inl AllApisFailed, [OldApiRequest a])"
        "[''mc.example.org:25565'' \<mapsto> \<lparr>data = [(''online'', JBool True)], timestamp = 1000\<rparr>]"
        31000 "''mc.example.org:25565''"]
  by (simp add: cacheTimeout_def)

subsection \<open>The merged record\<close>

lemma truthy_and_js: "truthy (and_js a b) \<longleftrightarrow> truthy a \<and> truthy b"
  by (simp add: and_js_def)


lemma processServerData_Inr:
  "processServerData n old = Inr s \<Longrightarrow> \<not> nullish n \<and> s = projr (processServerData n old)"
  by (cases "nullish n") (simp_all add: processServerData_def)


lemma fetchServerStatus_Inr:
  "fst (fetchServerStatus h net a) = Inr s \<Longrightarrow> \<exists>n old. processServerData n old = Inr s"
  by (auto simp: fetchServerStatus_def Let_def
           split: if_splits option.splits response.splits bool.splits sum.splits)

lemma merged_online:
  "\<not> nullish n \<Longrightarrow>
     own_prop (projr (processServerData n old)) ''online'' = or_js (get n ''online'') (JBool False)"
  by (simp add: processServerData_def Let_def own_prop_def)

lemma merged_players:
  "\<not> nullish n \<Longrightarrow>
     own_prop (projr (processServerData n old)) ''players'' =
       JObj [(''online'',
                or_js (get n ''players'')
                  (if truthy (and_js old (get old ''players''))
                   then get (get old ''players'') ''online'' else JNum 0)),
             (''max'',
                or_js (get n ''max_players'')
                  (if truthy (and_js old (get old ''players''))
                   then get (get old ''players'') ''max'' else JNum 0)),
             (''list'',
                if truthy (and_js (and_js old (get old ''players''))
                             (get (get old ''players'') ''list''))
                then get (get old ''players'') ''list'' else JArr [])]"
  by (simp add: processServerData_def Let_def own_prop_def)

lemma merged_debug:
  "\<not> nullish n \<Longrightarrow>
     own_prop (projr (processServerData n old)) ''debug'' =
       JObj [(''ping'', JNull),
             (''query'',
                or_js (and_js (and_js old (get old ''debug'')) (get (get old ''debug'') ''query''))
                  (JBool False)),
             (''cacheHit'', JBool False)]"
  by (simp add: processServerData_def Let_def own_prop_def)

lemma merged_ping_null:
  assumes "processServerData n old = Inr s"
  shows "get (own_prop s ''debug'') ''ping'' = JNull"
proof -
  from assms have n: "\<not> nullish n" and s: "s = projr (processServerData n old)"
    using processServerData_Inr by blast+
  show ?thesis unfolding s merged_debug [OF n] by (simp add: own_prop_def)
qed






text \<open>
  C4. In the merged record \<open>online\<close> is the new API's \<open>online\<close> (\<open>false\<close> when that
  is falsy) whatever the old API says, and \<open>players.list\<close> is the old API's
  \<open>players.list\<close> when the old API supplies one, the empty array otherwise. With the new
  API answering \<open>{code: 200, online: true}\<close> and the old API supplying the list
  \<open>["Alice", "Bob"]\<close>, the refresh returns that list and \<open>online = true\<close>.
\<close>

theorem merge_online_and_player_list:
  "(processServerData newApiData oldApiData = Inr s \<longrightarrow>
      own_prop s ''online'' = or_js (get newApiData ''online'') (JBool False)
      \<and> (\<forall>b. get newApiData ''online'' = JBool b \<longrightarrow> own_prop s ''online'' = JBool b)
      \<and> get (own_prop s ''players'') ''list'' =
          (if truthy oldApiData \<and> truthy (get oldApiData ''players'')
              \<and> truthy (get (get oldApiData ''players'') ''list'')
           then get (get oldApiData ''players'') ''list'' else JArr []))
   \<and> (newApi net a = Some (Response True (Some (JObj
           [(''code'', JNum 200), (''online'', JBool True)])))
       \<and> oldApi net a = Some (Response True (Some (JObj
           [(''players'', JObj [(''list'', JArr [JStr ''Alice'', JStr ''Bob''])])]))) \<longrightarrow>
       (\<exists>t. fst (fetchServerStatus h net a) = Inr t
            \<and> get (own_prop t ''players'') ''list'' = JArr [JStr ''Alice'', JStr ''Bob'']
            \<and> own_prop t ''online'' = JBool True))"
proof (intro conjI impI)
  assume p: "processServerData newApiData oldApiData = Inr s"
  then have n: "\<not> nullish newApiData"
    and s: "s = projr (processServerData newApiData oldApiData)"
    using processServerData_Inr by blast+
  show o: "own_prop s ''online'' = or_js (get newApiData ''online'') (JBool False)"
    unfolding s by (rule merged_online [OF n])
  show "\<forall>b. get newApiData ''online'' = JBool b \<longrightarrow> own_prop s ''online'' = JBool b"
    unfolding o by (cases "get newApiData ''online''") (auto simp: or_js_def)
  show "get (own_prop s ''players'') ''list'' =
          (if truthy oldApiData \<and> truthy (get oldApiData ''players'')
              \<and> truthy (get (get oldApiData ''players'') ''list'')
           then get (get oldApiData ''players'') ''list'' else JArr [])"
    unfolding s merged_players [OF n] by (simp add: own_prop_def truthy_and_js)
next
  assume "newApi net a = Some (Response True (Some (JObj
           [(''code'', JNum 200), (''online'', JBool True)])))
       \<and> oldApi net a = Some (Response True (Some (JObj
           [(''players'', JObj [(''list'', JArr [JStr ''Alice'', JStr ''Bob''])])])))"
  then show "\<exists>t. fst (fetchServerStatus h net a) = Inr t
            \<and> get (own_prop t ''players'') ''list'' = JArr [JStr ''Alice'', JStr ''Bob'']
            \<and> own_prop t ''online'' = JBool True"
    by (simp add: fetchServerStatus_def newApiData_of_def isNewApiValid_def Let_def
          processServerData_def nullish_def own_prop_def or_js_def and_js_def)
qed

theorem merge_online_and_player_list_witness:
  "processServerData (JObj [(''code'', JNum 200), (''online'', JBool False)]) JNull =
     Inr [(''online'', JBool False),
           (''ip'', JStr unknown_text),
           (''port'', JStr unknown_text),
           (''hostname'', JStr unknown_text),
           (''icon'', JNull),
           (''version'', JStr unknown_text),
           (''protocol'', JStr unknown_text),
           (''protocolName'', JStr unknown_text),
           (''players'', JObj [(''online'', JNum 0), (''max'', JNum 0), (''list'', JArr [])]),
           (''motd'', JObj [(''raw'', JArr []), (''clean'', JArr [JStr []]),
                            (''html'', JArr [JStr []])]),
           (''debug'', JObj [(''ping'', JNull), (''query'', JBool False),
                             (''cacheHit'', JBool False)]),
           (''software'', JStr unknown_text),
           (''gamemode'', JStr survival_text),
           (''map'', JStr unknown_text),
           (''plugins'', JArr [])]
   \<and> get (JObj [(''code'', JNum 200), (''online'', JBool False)]) ''online'' = JBool False
   \<and> newApi both_apis ''play.simpfun.cn:30786''
      = Some (Response True (Some (JObj [(''code'', JNum 200), (''online'', JBool True)])))
   \<and> oldApi both_apis ''play.simpfun.cn:30786''
      = Some (Response True (Some (JObj
           [(''players'', JObj [(''list'', JArr [JStr ''Alice'', JStr ''Bob''])])])))
   \<and> (\<exists>t. fst (fetchServerStatus example_host both_apis ''play.simpfun.cn:30786'') = Inr t
          \<and> get (own_prop t ''players'') ''list'' = JArr [JStr ''Alice'', JStr ''Bob'']
          \<and> own_prop t ''online'' = JBool True)"
  using merge_online_and_player_list
    [of "JObj [(''code'', JNum 200), (''online'', JBool False)]" JNull
        "[(''online'', JBool False),
           (''ip'', JStr unknown_text),
           (''port'', JStr unknown_text),
           (''hostname'', JStr unknown_text),
           (''icon'', JNull),
           (''version'', JStr unknown_text),
           (''protocol'', JStr unknown_text),
           (''protocolName'', JStr unknown_text),
           (''players'', JObj [(''online'', JNum 0), (''max'', JNum 0), (''list'', JArr [])]),
           (''motd'', JObj [(''raw'', JArr []), (''clean'', JArr [JStr []]),
                            (''html'', JArr [JStr []])]),
           (''debug'', JObj [(''ping'', JNull), (''query'', JBool False),
                             (''cacheHit'', JBool False)]),
           (''software'', JStr unknown_text),
           (''gamemode'', JStr survival_text),
           (''map'', JStr unknown_text),
           (''plugins'', JArr [])]"
        both_apis "''play.simpfun.cn:30786''" example_host]
  by (simp add: both_apis_def processServerData_def nullish_def Let_def or_js_def and_js_def
        own_prop_def)

text \<open>
  C5. The player counts are merged with \<open>||\<close>, which passes over a count of zero as
  it passes over an absent one. Here the new API reports the server online with
  \<open>players = 0\<close>, the old API reports \<open>players.online = 5\<close>, and the merged record
  has \<open>players.online = 5\<close>.
\<close>

theorem zero_players_of_new_api_overridden:
  "processServerData
     (JObj [(''code'', JNum 200), (''online'', JBool True),
            (''players'', JNum 0), (''max_players'', JNum 20)])
     (JObj [(''online'', JBool True),
            (''players'', JObj [(''online'', JNum 5), (''max'', JNum 20)])])
   = Inr [(''online'', JBool True),
           (''ip'', JStr unknown_text),
           (''port'', JStr unknown_text),
           (''hostname'', JStr unknown_text),
           (''icon'', JNull),
           (''version'', JStr unknown_text),
           (''protocol'', JStr unknown_text),
           (''protocolName'', JStr unknown_text),
           (''players'', JObj [(''online'', JNum 5), (''max'', JNum 20), (''list'', JArr [])]),
           (''motd'', JObj [(''raw'', JArr []), (''clean'', JArr [JStr []]),
                            (''html'', JArr [JStr []])]),
           (''debug'', JObj [(''ping'', JNull), (''query'', JBool False),
                             (''cacheHit'', JBool False)]),
           (''software'', JStr unknown_text),
           (''gamemode'', JStr survival_text),
           (''map'', JStr unknown_text),
           (''plugins'', JArr [])]"
  by (simp add: processServerData_def nullish_def Let_def or_js_def and_js_def own_prop_def)

subsection \<open>The ping\<close>

lemma processServerData_script_Inr:
  "processServerData_script dat = Inr t \<Longrightarrow>
     \<not> nullish dat \<and> t = projr (processServerData_script dat)"
  by (cases "nullish dat") (simp_all add: processServerData_script_def)

lemma script_ping:
  "\<not> nullish dat \<Longrightarrow>
     get (own_prop (projr (processServerData_script dat)) ''debug'') ''ping'' =
       (let ping0 = opt_get (get dat ''debug'') ''ping''
        in if ping0 = JBool True then JNull
           else case ping0 of
                  JNum x \<Rightarrow> JNum (js_round x)
                | _ \<Rightarrow> if ping0 = JBool False \<or> ping0 = JUndef then JNull else ping0)"
  by (simp add: processServerData_script_def Let_def own_prop_def)

text \<open>
  C6, as the code has it. Every status a refresh of the two-API version returns has
  \<open>debug.ping = null\<close>, also when it is built from the old API alone: that version
  never reads the old API's ping. The single-API version normalises the old API's
  \<open>debug.ping\<close>: a number is rounded to the nearest integer (a half rounds up), a
  boolean or absent value becomes \<open>null\<close>, anything else is kept. There the ping
  \<open>42.7\<close> becomes \<open>43\<close>, the ping \<open>true\<close> becomes \<open>null\<close>.
\<close>

theorem ping_normalisation:
  "(\<forall>s. fst (fetchServerStatus h net a) = Inr s \<longrightarrow> get (own_prop s ''debug'') ''ping'' = JNull)
   \<and> (\<forall>t. processServerData_script dat = Inr t \<longrightarrow>
        get (own_prop t ''debug'') ''ping'' =
          (case opt_get (get dat ''debug'') ''ping'' of
             JNum x \<Rightarrow> JNum (js_round x)
           | JBool b \<Rightarrow> JNull
           | JUndef \<Rightarrow> JNull
           | v \<Rightarrow> v))
   \<and> (\<forall>x. \<exists>n. js_round x = of_int n \<and> \<bar>js_round x - x\<bar> \<le> 1 / 2)
   \<and> (\<exists>t. processServerData_script (JObj [(''debug'', JObj [(''ping'', JNum (427 / 10))])]) = Inr t
          \<and> get (own_prop t ''debug'') ''ping'' = JNum 43)
   \<and> (\<exists>t. processServerData_script (JObj [(''debug'', JObj [(''ping'', JBool True)])]) = Inr t
          \<and> get (own_prop t ''debug'') ''ping'' = JNull)"
proof (intro conjI impI allI)
  fix s
  assume "fst (fetchServerStatus h net a) = Inr s"
  then obtain n old where "processServerData n old = Inr s"
    using fetchServerStatus_Inr by blast
  then show "get (own_prop s ''debug'') ''ping'' = JNull"
    by (rule merged_ping_null)
next
  fix t
  assume "processServerData_script dat = Inr t"
  then have d: "\<not> nullish dat" and t: "t = projr (processServerData_script dat)"
    using processServerData_script_Inr by blast+
  show "get (own_prop t ''debug'') ''ping'' =
          (case opt_get (get dat ''debug'') ''ping'' of
             JNum x \<Rightarrow> JNum (js_round x)
           | JBool b \<Rightarrow> JNull
           | JUndef \<Rightarrow> JNull
           | v \<Rightarrow> v)"
    unfolding t script_ping [OF d]
    by (cases "opt_get (get dat ''debug'') ''ping''") (simp_all add: Let_def)
next
  fix x :: rat
  have "js_round x = of_int \<lfloor>x + 1 / 2\<rfloor>"
    by (simp add: js_round_def)
  moreover have "\<bar>js_round x - x\<bar> \<le> 1 / 2"
    unfolding js_round_def by linarith
  ultimately show "\<exists>n. js_round x = of_int n \<and> \<bar>js_round x - x\<bar> \<le> 1 / 2"
    by blast
next
  have r: "js_round (427 / 10) = 43"
    by (simp add: js_round_def floor_eq_iff)
  show "\<exists>t. processServerData_script (JObj [(''debug'', JObj [(''ping'', JNum (427 / 10))])]) = Inr t
          \<and> get (own_prop t ''debug'') ''ping'' = JNum 43"
    by (simp add: processServerData_script_def nullish_def opt_get_def Let_def own_prop_def r)
next
  show "\<exists>t. processServerData_script (JObj [(''debug'', JObj [(''ping'', JBool True)])]) = Inr t
          \<and> get (own_prop t ''debug'') ''ping'' = JNull"
    by (simp add: processServerData_script_def nullish_def opt_get_def Let_def own_prop_def)
qed

theorem ping_normalisation_witness:
  "(\<exists>s. fst (fetchServerStatus example_host both_apis ''play.simpfun.cn:30786'') = Inr s
        \<and> get (own_prop s ''debug'') ''ping'' = JNull)
   \<and> (\<exists>t. processServerData_script (JObj [(''debug'', JObj [(''ping'', JNum (5 / 2))])]) = Inr t
        \<and> get (own_prop t ''debug'') ''ping'' = JNum 3)"
proof -
  note norm = ping_normalisation
    [where h = example_host and net = both_apis and a = "''play.simpfun.cn:30786''"
       and dat = "JObj [(''debug'', JObj [(''ping'', JNum (5 / 2))])]"]
  obtain s where s: "fst (fetchServerStatus example_host both_apis ''play.simpfun.cn:30786'') = Inr s"
    by (simp add: fetchServerStatus_def both_apis_def newApiData_of_def isNewApiValid_def
          own_prop_def processServerData_def nullish_def Let_def)
  obtain t where t: "processServerData_script (JObj [(''debug'', JObj [(''ping'', JNum (5 / 2))])]) = Inr t"
    by (simp add: processServerData_script_def nullish_def Let_def)
  have r: "js_round (5 / 2) = 3"
    by (simp add: js_round_def floor_eq_iff)
  from norm s have "get (own_prop s ''debug'') ''ping'' = JNull"
    by blast
  moreover from norm t have "get (own_prop t ''debug'') ''ping'' = JNum 3"
    by (simp add: opt_get_def nullish_def own_prop_def r)
  ultimately show ?thesis
    using s t by blast
qed

text \<open>
  C6, as stated, fails in the two-API version when the status is built from the old API
  alone: the new API is unreachable, the old API reports \<open>debug.ping = 42.7\<close>, and
  the status has \<open>debug.ping = null\<close>, not \<open>43\<close>. The translation to the new
  format drops \<open>debug\<close>, and the merge sets the ping to \<open>null\<close> without reading it.
\<close>

theorem legacy_ping_dropped_by_fallback:
  "newApi old_api_with_ping ''play.simpfun.cn:30786'' = None
   \<and> oldApi old_api_with_ping ''play.simpfun.cn:30786''
       = Some (Response True (Some (JObj
           [(''online'', JBool True), (''debug'', JObj [(''ping'', JNum (427 / 10))])])))
   \<and> fetchServerStatus example_host old_api_with_ping ''play.simpfun.cn:30786''
       = (Inr [(''online'', JBool True),
               (''ip'', JStr unknown_text),
               (''port'', JStr unknown_text),
               (''hostname'', JStr unknown_text),
               (''icon'', JNull),
               (''version'', JStr unknown_text),
               (''protocol'', JStr unknown_text),
               (''protocolName'', JStr unknown_text),
               (''players'', JObj [(''online'', JNum 0), (''max'', JNum 0), (''list'', JArr [])]),
               (''motd'', JObj [(''raw'', JArr []), (''clean'', JArr [JStr []]),
                                (''html'', JArr [JStr []])]),
               (''debug'', JObj [(''ping'', JNull), (''query'', JBool False),
                                 (''cacheHit'', JBool False)]),
               (''software'', JStr unknown_text),
               (''gamemode'', JStr survival_text),
               (''map'', JStr unknown_text),
               (''plugins'', JArr [])],
          [NewApiRequest ''play.simpfun.cn:30786'', OldApiRequest ''play.simpfun.cn:30786''])
   \<and> get (own_prop (projr (fst (fetchServerStatus example_host old_api_with_ping
                                  ''play.simpfun.cn:30786''))) ''debug'') ''ping'' = JNull
   \<and> get (own_prop (projr (fst (fetchServerStatus example_host old_api_with_ping
                                  ''play.simpfun.cn:30786''))) ''debug'') ''ping'' \<noteq> JNum 43"
  by (simp add: fetchServerStatus_def old_api_with_ping_def newApiData_of_def isNewApiValid_def
        Let_def convertOldApiToNewApiFormat_def processServerData_def nullish_def own_prop_def
        or_js_def and_js_def unknown_text_def)

subsection \<open>Rendering the MOTD\<close>

lemma join_strings: "join h sep (map JStr ls) = Inr (join_strs sep ls)"
proof -
  have "sequence (map (\<lambda>x. if nullish x then Inr [] else toStr h x) (map JStr ls)) = Inr ls"
    by (induction ls) (simp_all add: nullish_def)
  then show ?thesis
    by (simp add: join_def)
qed

lemma renderMOTD_strings:
  "renderMOTD h (JArr (map JStr ls)) = Inr (join_strs ''<br>'' ls)"
  using join_strings [of h "''<br>''" ls] by (simp add: renderMOTD_def)

lemma renderMOTD_script_strings:
  "renderMOTD_script (JArr (map JStr ls)) = Inr (join_strs ''<br>'' (map render_line ls))"
proof -
  have "sequence (map (\<lambda>line. case line of JStr s \<Rightarrow> Inr (render_line s) | _ \<Rightarrow> Inl TypeError)
          (map JStr ls)) = Inr (map render_line ls)"
    by (induction ls) simp_all
  then show ?thesis
    by (simp add: renderMOTD_script_def)
qed

lemma sequence_Inl: "sequence rs = Inl e \<Longrightarrow> Inl e \<in> set rs"
  by (induction rs) (auto split: sum.splits)

lemma sequence_map_isl: "x \<in> set xs \<Longrightarrow> isl (f x) \<Longrightarrow> isl (sequence (map f xs))"
  by (induction xs) (auto split: sum.splits)

lemma toStr_error: "toStr h v = Inl e \<Longrightarrow> e = TypeError"
proof (induction h v arbitrary: e rule: toStr.induct)
  case (6 h xs)
  then have "sequence (map (\<lambda>x. if x = JNull \<or> x = JUndef then Inr [] else toStr h x) xs) = Inl e"
    by (auto split: sum.splits)
  then have "Inl e \<in> set (map (\<lambda>x. if x = JNull \<or> x = JUndef then Inr [] else toStr h x) xs)"
    by (rule sequence_Inl)
  then obtain x where "x \<in> set xs" "\<not> (x = JNull \<or> x = JUndef)" "toStr h x = Inl e"
    by (auto split: if_splits)
  then show ?case using "6.IH" by blast
qed (auto split: if_splits)

lemma renderMOTD_script_raises:
  assumes "x \<in> set xs" and "\<forall>s. x \<noteq> JStr s"
  shows "renderMOTD_script (JArr xs) = Inl TypeError"
proof -
  let ?rs = "map (\<lambda>line. case line of JStr s \<Rightarrow> Inr (render_line s) | _ \<Rightarrow> Inl TypeError) xs"
  have "(case x of JStr s \<Rightarrow> Inr (render_line s) | _ \<Rightarrow> Inl TypeError) = Inl TypeError"
    using assms(2) by (cases x) auto
  then have "isl (sequence ?rs)"
    using assms(1) by (intro sequence_map_isl [of x]) simp_all
  then obtain e where e: "sequence ?rs = Inl e"
    by (cases "sequence ?rs") auto
  then have "Inl e \<in> set ?rs"
    by (rule sequence_Inl)
  then have "e = TypeError"
    by (auto split: jsval.splits)
  with e show ?thesis
    by (simp add: renderMOTD_script_def)
qed

lemma renderMOTD_raises:
  assumes "JObj ps \<in> set xs" and "map_of ps ''toString'' \<noteq> None"
  shows "renderMOTD h (JArr xs) = Inl TypeError"
proof -
  let ?rs = "map (\<lambda>x. if nullish x then Inr [] else toStr h x) xs"
  have "(if nullish (JObj ps) then Inr [] else toStr h (JObj ps)) = Inl TypeError"
    using assms(2) by (simp add: nullish_def)
  then have "isl (sequence ?rs)"
    using assms(1) by (intro sequence_map_isl [of "JObj ps"]) simp_all
  then obtain e where e: "sequence ?rs = Inl e"
    by (cases "sequence ?rs") auto
  then have "Inl e \<in> set ?rs"
    by (rule sequence_Inl)
  then have "e = TypeError"
    by (auto split: if_splits dest: toStr_error [OF sym])
  with e show ?thesis
    by (simp add: renderMOTD_def join_def)
qed

text \<open>
  C10, as the code has it. On \<open>null\<close>, \<open>undefined\<close> and every other value that is
  not an array both versions of \<open>renderMOTD\<close> return the empty string. On an array of
  strings both return a string: the two-API version joins the lines with \<open><br>\<close>,
  the single-API version renders each line first. On an array with an element that is
  not a string the single-API version raises a TypeError, and on an array with an
  element that is an object with an own property \<open>toString\<close> the two-API version
  raises a TypeError.
\<close>

theorem renderMOTD_non_array_empty:
  "(\<not> isArray v \<longrightarrow> renderMOTD h v = Inr [] \<and> renderMOTD_script v = Inr [])
   \<and> renderMOTD h (JArr (map JStr ls)) = Inr (join_strs ''<br>'' ls)
   \<and> renderMOTD_script (JArr (map JStr ls)) = Inr (join_strs ''<br>'' (map render_line ls))
   \<and> (x \<in> set xs \<and> (\<forall>s. x \<noteq> JStr s) \<longrightarrow> renderMOTD_script (JArr xs) = Inl TypeError)
   \<and> (JObj ps \<in> set xs \<and> map_of ps ''toString'' \<noteq> None \<longrightarrow>
        renderMOTD h (JArr xs) = Inl TypeError)"
proof (intro conjI impI)
  assume "\<not> isArray v"
  then show "renderMOTD h v = Inr []" and "renderMOTD_script v = Inr []"
    by (simp_all add: renderMOTD_def renderMOTD_script_def)
next
  show "renderMOTD h (JArr (map JStr ls)) = Inr (join_strs ''<br>'' ls)"
    by (rule renderMOTD_strings)
next
  show "renderMOTD_script (JArr (map JStr ls)) = Inr (join_strs ''<br>'' (map render_line ls))"
    by (rule renderMOTD_script_strings)
next
  assume "x \<in> set xs \<and> (\<forall>s. x \<noteq> JStr s)"
  then show "renderMOTD_script (JArr xs) = Inl TypeError"
    using renderMOTD_script_raises by blast
next
  assume "JObj ps \<in> set xs \<and> map_of ps ''toString'' \<noteq> None"
  then show "renderMOTD h (JArr xs) = Inl TypeError"
    using renderMOTD_raises by blast
qed

theorem renderMOTD_non_array_empty_witness:
  "\<not> isArray JNull \<and> renderMOTD example_host JNull = Inr [] \<and> renderMOTD_script JNull = Inr []
   \<and> \<not> isArray (JStr ''<span>A Minecraft Server</span>'')
   \<and> renderMOTD example_host (JStr ''<span>A Minecraft Server</span>'') = Inr []
   \<and> renderMOTD_script (JStr ''<span>A Minecraft Server</span>'') = Inr []
   \<and> renderMOTD example_host (JArr [JStr ''Welcome'', JStr ''to the server'']) =
       Inr ''Welcome<br>to the server''
   \<and> renderMOTD_script (JArr [JStr ''Welcome'', JStr ''to the server'']) =
       Inr ''<span>Welcome</span><br><span>to the server</span>''
   \<and> JNull \<in> set [JStr ''Welcome'', JNull]
   \<and> renderMOTD_script (JArr [JStr ''Welcome'', JNull]) = Inl TypeError
   \<and> JObj [(''toString'', JStr ''x'')] \<in> set [JStr ''Welcome'', JObj [(''toString'', JStr ''x'')]]
   \<and> map_of [(''toString'', JStr ''x'')] ''toString'' \<noteq> None
   \<and> renderMOTD example_host (JArr [JStr ''Welcome'', JObj [(''toString'', JStr ''x'')]])
       = Inl TypeError"
proof -
  have a: "renderMOTD example_host JNull = Inr [] \<and> renderMOTD_script JNull = Inr []"
    using renderMOTD_non_array_empty [of JNull example_host] by simp
  have b: "renderMOTD example_host (JStr ''<span>A Minecraft Server</span>'') = Inr []
     \<and> renderMOTD_script (JStr ''<span>A Minecraft Server</span>'') = Inr []"
    using renderMOTD_non_array_empty [of "JStr ''<span>A Minecraft Server</span>''" example_host]
    by simp
  have c: "renderMOTD example_host (JArr [JStr ''Welcome'', JStr ''to the server'']) =
       Inr ''Welcome<br>to the server''
     \<and> renderMOTD_script (JArr [JStr ''Welcome'', JStr ''to the server'']) =
       Inr ''<span>Welcome</span><br><span>to the server</span>''"
    using renderMOTD_non_array_empty [of JNull example_host "[''Welcome'', ''to the server'']"]
    by (simp add: render_line_def startsWith_def endsWith_def Let_def)
  have d: "renderMOTD_script (JArr [JStr ''Welcome'', JNull]) = Inl TypeError"
    using renderMOTD_non_array_empty
      [where x = JNull and xs = "[JStr ''Welcome'', JNull]"]
    by simp
  have e: "renderMOTD example_host (JArr [JStr ''Welcome'', JObj [(''toString'', JStr ''x'')]])
       = Inl TypeError"
    using renderMOTD_non_array_empty
      [where ps = "[(''toString'', JStr ''x'')]" and h = example_host
         and xs = "[JStr ''Welcome'', JObj [(''toString'', JStr ''x'')]]"]
    by simp
  show ?thesis using a b c d e by simp
qed

text \<open>
  C10, as stated, fails on arrays: the single-API version calls \<open>line.replace\<close> on
  every element and raises a TypeError on the array \<open>[42]\<close>; the two-API version
  raises on an element whose own property \<open>toString\<close> is not a function.
\<close>

theorem renderMOTD_raises_on_elements:
  "renderMOTD_script (JArr [JNum 42]) = Inl TypeError
   \<and> renderMOTD example_host (JArr [JObj [(''toString'', JNull)]]) = Inl TypeError"
  by (simp add: renderMOTD_script_def renderMOTD_def join_def nullish_def)

lemma replace_reset_skip:
  "a \<noteq> CHR 0xC2 \<or> b \<noteq> CHR 0xA7 \<or> c \<noteq> CHR ''r'' \<Longrightarrow>
     replace_reset (a # b # c # u) = a # replace_reset (b # c # u)"
  by auto

lemma replace_reset_short: "length u < 3 \<Longrightarrow> replace_reset u = u"
  by (cases u rule: replace_reset.cases) auto

lemma replace_reset_Cons:
  assumes "a \<noteq> CHR 0xC2"
  shows "replace_reset (a # u) = a # replace_reset u"
proof (cases u)
  case Nil
  then show ?thesis by simp
next
  case (Cons b v)
  with assms show ?thesis
    by (cases v) (simp_all add: replace_reset_short)
qed

lemma replace_reset_prefix:
  "CHR 0xC2 \<notin> set p \<Longrightarrow> replace_reset (p @ t) = p @ replace_reset t"
  by (induction p) (auto simp: replace_reset_Cons)

lemma replace_codes_head:
  "\<exists>t. replace_codes (c # s) = c # t \<or> replace_codes (c # s) = CHR ''<'' # t"
proof (cases s)
  case Nil
  then show ?thesis by auto
next
  case (Cons x v)
  then show ?thesis by (cases v) auto
qed

lemma color_code_not_lead: "color_code c \<Longrightarrow> c \<noteq> CHR 0xC2"
  by (auto simp: color_code_def)

lemma replace_reset_dead: "replace_reset (replace_codes s) = replace_codes s"
proof (induction s rule: replace_codes.induct)
  case (1 a b c s)
  show ?case
  proof (cases "a = CHR 0xC2 \<and> b = CHR 0xA7 \<and> color_code c")
    case True
    have p: \<open>CHR 0xC2 \<notin> set (''</span><span class="mc-color-'' @ [c] @ ''">'')\<close>
      using True color_code_not_lead by auto
    have \<open>replace_reset ((''</span><span class="mc-color-'' @ [c] @ ''">'') @ replace_codes s)
          = (''</span><span class="mc-color-'' @ [c] @ ''">'') @ replace_reset (replace_codes s)\<close>
      using p by (rule replace_reset_prefix)
    with True 1(1) show ?thesis by simp
  next
    case False
    then have rc: "replace_codes (a # b # c # s) = a # replace_codes (b # c # s)"
      by auto
    have ih: "replace_reset (replace_codes (b # c # s)) = replace_codes (b # c # s)"
      using False 1(2) by blast
    obtain t where t: "replace_codes (b # c # s) = b # t \<or> replace_codes (b # c # s) = CHR ''<'' # t"
      using replace_codes_head by blast
    show ?thesis
    proof (cases "a = CHR 0xC2")
      case na: False
      then show ?thesis by (simp add: rc ih replace_reset_Cons del: replace_codes.simps)
    next
      case a: True
      from t show ?thesis
      proof
        assume lt: "replace_codes (b # c # s) = CHR ''<'' # t"
        have "replace_reset (a # CHR ''<'' # t) = a # replace_reset (CHR ''<'' # t)"
        proof (cases t)
          case Nil
          then show ?thesis by simp
        next
          case (Cons x v)
          then show ?thesis by simp
        qed
        then show ?thesis using ih by (simp add: rc lt del: replace_codes.simps)
      next
        assume bt: "replace_codes (b # c # s) = b # t"
        show ?thesis
        proof (cases "b = CHR 0xA7")
          case nb: False
          have "replace_reset (a # b # t) = a # replace_reset (b # t)"
            using nb by (cases t) simp_all
          then show ?thesis using ih by (simp add: rc bt del: replace_codes.simps)
        next
          case b: True
          with a False have nc: "\<not> color_code c" by simp
          then have cr: "c \<noteq> CHR ''r''" by (auto simp: color_code_def)
          have bcs: "replace_codes (b # c # s) = b # replace_codes (c # s)"
            using b by (cases s) auto
          obtain u where u: "replace_codes (c # s) = c # u \<or> replace_codes (c # s) = CHR ''<'' # u"
            using replace_codes_head by blast
          then have "replace_reset (a # b # replace_codes (c # s))
                     = a # replace_reset (b # replace_codes (c # s))"
            using cr by auto
          then show ?thesis using ih by (simp add: rc bcs del: replace_codes.simps)
        qed
      qed
    qed
  qed
qed simp_all

lemma endsWith_iff: "endsWith s p \<longleftrightarrow> (\<exists>u. s = u @ p)"
proof
  assume "endsWith s p"
  then have "s = take (length s - length p) s @ p"
    by (metis append_take_drop_id endsWith_def)
  then show "\<exists>u. s = u @ p" by blast
next
  assume "\<exists>u. s = u @ p"
  then show "endsWith s p" by (auto simp: endsWith_def)
qed

lemma endsWith_snoc: "endsWith (p @ [a]) (q @ [b]) \<longleftrightarrow> a = b \<and> endsWith p q"
  unfolding endsWith_iff
proof
  assume "\<exists>u. p @ [a] = u @ q @ [b]"
  then obtain u where "p @ [a] = (u @ q) @ [b]" by auto
  then have "p = u @ q \<and> a = b" by (simp only: append1_eq_conv)
  then show "a = b \<and> (\<exists>u. p = u @ q)" by blast
next
  assume "a = b \<and> (\<exists>u. p = u @ q)"
  then show "\<exists>u. p @ [a] = u @ q @ [b]" by auto
qed

lemma endsWith_snoc_Nil: "endsWith (p @ [a]) []"
  by (simp add: endsWith_def)

lemma endsWith_append:
  assumes "length q \<le> length m"
  shows "endsWith (p @ m) q \<longleftrightarrow> endsWith m q"
  using assms by (simp add: endsWith_def)


lemma no_suffix_snoc:
  assumes safe: "\<forall>k. 0 < k \<and> k \<le> length t \<longrightarrow> \<not> endsWith p (take k t)"
    and a: "a \<noteq> hd t"
  shows "\<forall>k. 0 < k \<and> k \<le> length t \<longrightarrow> \<not> endsWith (p @ [a]) (take k t)"
proof (intro allI impI)
  fix k :: nat
  assume k: "0 < k \<and> k \<le> length t"
  then obtain j where j: "k = Suc j" "j < length t"
    by (cases k) auto
  have split: "take k t = take j t @ [t ! j]"
    unfolding j(1) using j(2) by (rule take_Suc_conv_app_nth)
  have "\<not> (a = t ! j \<and> endsWith p (take j t))"
  proof (cases j)
    case 0
    with j(2) have "t ! j = hd t" by (simp add: hd_conv_nth)
    with a show ?thesis by simp
  next
    case (Suc i)
    with j have "0 < j \<and> j \<le> length t" by simp
    with safe show ?thesis by blast
  qed
  then show "\<not> endsWith (p @ [a]) (take k t)"
    unfolding split endsWith_snoc .
qed

lemma no_tag_end_snoc:
  assumes "\<forall>k. 0 < k \<and> k \<le> 7 \<longrightarrow> \<not> endsWith p (take k ''</span>'')"
    and "a \<noteq> CHR ''<''"
  shows "\<forall>k. 0 < k \<and> k \<le> 7 \<longrightarrow> \<not> endsWith (p @ [a]) (take k ''</span>'')"
  using no_suffix_snoc [of "''</span>''" p a] assms by simp

lemma color_code_not_lt: "color_code c \<Longrightarrow> c \<noteq> CHR ''<''"
  by (auto simp: color_code_def)

lemma no_tag_end_marker:
  assumes "color_code c"
  shows \<open>\<forall>k. 0 < k \<and> k \<le> 7 \<longrightarrow>
           \<not> endsWith (p @ ''</span><span class="mc-color-'' @ [c] @ ''">'') (take k ''</span>'')\<close>
proof (intro allI impI)
  fix k :: nat
  assume k: "0 < k \<and> k \<le> 7"
  then have cases: "k = 1 \<or> k = 2 \<or> k = 3 \<or> k = 4 \<or> k = 5 \<or> k = 6 \<or> k = 7"
    by arith
  have \<open>endsWith (p @ (''</span><span class="mc-color-'' @ [c] @ ''">'')) (take k ''</span>'')
        = endsWith (''</span><span class="mc-color-'' @ [c] @ ''">'') (take k ''</span>'')\<close>
    using k by (intro endsWith_append) simp
  moreover have \<open>\<not> endsWith (''</span><span class="mc-color-'' @ [c] @ ''">'') (take k ''</span>'')\<close>
    using cases color_code_not_lt [OF assms]
    by (elim disjE) (simp_all add: endsWith_def)
  ultimately show \<open>\<not> endsWith (p @ ''</span><span class="mc-color-'' @ [c] @ ''">'')
                        (take k ''</span>'')\<close>
    by simp
qed

lemma no_tag_end_text:
  "CHR ''<'' \<notin> set s \<Longrightarrow>
   \<forall>k. 0 < k \<and> k \<le> 7 \<longrightarrow> \<not> endsWith p (take k ''</span>'') \<Longrightarrow>
   \<forall>k. 0 < k \<and> k \<le> 7 \<longrightarrow> \<not> endsWith (p @ s) (take k ''</span>'')"
proof (induction s arbitrary: p)
  case Nil
  then show ?case by simp
next
  case (Cons a s)
  then have a: "a \<noteq> CHR ''<''" and s: "CHR ''<'' \<notin> set s"
    by auto
  have "\<forall>k. 0 < k \<and> k \<le> 7 \<longrightarrow> \<not> endsWith ((p @ [a]) @ s) (take k ''</span>'')"
    using s no_tag_end_snoc [OF Cons.prems(2) a] by (rule Cons.IH)
  then show ?case by simp
qed

lemma replace_codes_no_tag_end:
  "CHR ''<'' \<notin> set s \<Longrightarrow>
   \<forall>k. 0 < k \<and> k \<le> 7 \<longrightarrow> \<not> endsWith p (take k ''</span>'') \<Longrightarrow>
   \<forall>k. 0 < k \<and> k \<le> 7 \<longrightarrow> \<not> endsWith (p @ replace_codes s) (take k ''</span>'')"
proof (induction s arbitrary: p rule: replace_codes.induct)
  case (1 a b c s)
  show ?case
  proof (cases "a = CHR 0xC2 \<and> b = CHR 0xA7 \<and> color_code c")
    case True
    then have m: \<open>\<forall>k. 0 < k \<and> k \<le> 7 \<longrightarrow>
        \<not> endsWith (p @ ''</span><span class="mc-color-'' @ [c] @ ''">'') (take k ''</span>'')\<close>
      using no_tag_end_marker by blast
    have s: "CHR ''<'' \<notin> set s"
      using 1(3) by simp
    have rc: \<open>p @ replace_codes (a # b # c # s)
              = (p @ ''</span><span class="mc-color-'' @ [c] @ ''">'') @ replace_codes s\<close>
      using True by simp
    show ?thesis
      unfolding rc using 1(1) [OF True s m] .
  next
    case False
    have a: "a \<noteq> CHR ''<''" using 1(3) by auto
    have rest: "CHR ''<'' \<notin> set (b # c # s)" using 1(3) by simp
    have rc: "p @ replace_codes (a # b # c # s) = (p @ [a]) @ replace_codes (b # c # s)"
      using False by auto
    show ?thesis
      unfolding rc using 1(2) [OF False rest no_tag_end_snoc [OF 1(4) a]] .
  qed
qed (rule no_tag_end_text; simp)+


lemma spans_balanced_skip:
  "a \<noteq> CHR ''<'' \<Longrightarrow> spans_balanced d (a # t) = spans_balanced d t"
  by simp

lemma spans_balanced_text:
  "CHR ''<'' \<notin> set s \<Longrightarrow> spans_balanced d (s @ t) = spans_balanced d t"
proof (induction s)
  case Nil
  show ?case by simp
next
  case (Cons a s)
  then have a: "a \<noteq> CHR ''<''" and s: "CHR ''<'' \<notin> set s"
    by auto
  have "spans_balanced d (a # (s @ t)) = spans_balanced d (s @ t)"
    using a by (rule spans_balanced_skip)
  with Cons.IH [OF s] show ?case by simp
qed

lemma spans_balanced_marker:
  assumes "color_code c"
  shows \<open>spans_balanced (Suc 0) ((''</span><span class="mc-color-'' @ [c] @ ''">'') @ t)
         = spans_balanced (Suc 0) t\<close>
  using color_code_not_lt [OF assms] by simp

lemma replace_codes_balanced:
  "CHR ''<'' \<notin> set s \<Longrightarrow> spans_balanced (Suc 0) (replace_codes s @ ''</span>'')"
proof (induction s rule: replace_codes.induct)
  case (1 a b c s)
  show ?case
  proof (cases "a = CHR 0xC2 \<and> b = CHR 0xA7 \<and> color_code c")
    case True
    then have rc: \<open>replace_codes (a # b # c # s) @ ''</span>''
          = (''</span><span class="mc-color-'' @ [c] @ ''">'') @ (replace_codes s @ ''</span>'')\<close>
      by simp
    have "CHR ''<'' \<notin> set s" using 1(3) by simp
    with 1(1) [OF True] have "spans_balanced (Suc 0) (replace_codes s @ ''</span>'')" .
    then show ?thesis
      unfolding rc using True by (simp only: spans_balanced_marker)
  next
    case False
    then have rc: "replace_codes (a # b # c # s) @ ''</span>''
          = a # (replace_codes (b # c # s) @ ''</span>'')"
      by auto
    have a: "a \<noteq> CHR ''<''" using 1(3) by auto
    have "CHR ''<'' \<notin> set (b # c # s)" using 1(3) by simp
    with 1(2) [OF False] have "spans_balanced (Suc 0) (replace_codes (b # c # s) @ ''</span>'')" .
    then show ?thesis
      unfolding rc by (simp only: spans_balanced_skip [OF a])
  qed
qed simp_all

lemma replace_codes_start:
  "CHR ''<'' \<notin> set s \<Longrightarrow> \<not> startsWith (replace_codes s) ''<span''"
  by (cases s rule: replace_codes.cases) (auto simp: startsWith_def)

lemma render_line_plain:
  assumes "CHR ''<'' \<notin> set line"
  shows "render_line line = ''<span>'' @ replace_codes line @ ''</span>''"
    and "spans_balanced 0 (render_line line)"
proof -
  have safe: "\<forall>k. 0 < k \<and> k \<le> 7 \<longrightarrow> \<not> endsWith ''<span>'' (take k ''</span>'')"
  proof (intro allI impI)
    fix k :: nat
    assume "0 < k \<and> k \<le> 7"
    then have "k = 1 \<or> k = 2 \<or> k = 3 \<or> k = 4 \<or> k = 5 \<or> k = 6 \<or> k = 7"
      by arith
    then show "\<not> endsWith ''<span>'' (take k ''</span>'')"
      by (elim disjE) (simp_all add: endsWith_def)
  qed
  have t: "take 7 ''</span>'' = ''</span>''"
    by simp
  have "\<not> endsWith (''<span>'' @ replace_codes line) (take 7 ''</span>'')"
    using replace_codes_no_tag_end [OF assms safe, rule_format, of 7] by linarith
  then have e: "\<not> endsWith (''<span>'' @ replace_codes line) ''</span>''"
    unfolding t .
  have s: "\<not> startsWith (replace_codes line) ''<span''"
    using assms by (rule replace_codes_start)
  show r: "render_line line = ''<span>'' @ replace_codes line @ ''</span>''"
    using e s by (simp add: render_line_def replace_reset_dead Let_def)
  have "spans_balanced 0 (''<span>'' @ (replace_codes line @ ''</span>''))
        = spans_balanced (Suc 0) (replace_codes line @ ''</span>'')"
    by simp
  then show "spans_balanced 0 (render_line line)"
    unfolding r using replace_codes_balanced [OF assms] by simp
qed

text \<open>
  C7. The class \<open>[0-9a-fk-or]\<close> of the first replacement contains \<open>r\<close>, so the
  reset marker is replaced like a colour marker and the second replacement,
  \<open>.replace(/\<section>r/g, '</span><span>')\<close>, finds nothing to replace on any line.
  On the line \<open>\<section>aHello\<section>r World\<close> the reset marker opens
  \<open><span class="mc-color-r">\<close>, not a plain \<open><span>\<close>. The rest of the claim
  holds: every colour marker closes the span before it and opens a styled one, every line
  without markup of its own is wrapped in \<open><span>\<close> and \<open></span>\<close>, its spans are
  balanced, and the lines are joined with \<open><br>\<close>.
\<close>

theorem reset_marker_rendered_as_colour:
  \<open>renderMOTD_script (JArr [JStr (section_sign @ ''aHello'' @ section_sign @ ''r World'')])
     = Inr ''<span></span><span class="mc-color-a">Hello</span><span class="mc-color-r"> World</span>''
   \<and> replace_codes (section_sign @ ''r World'') = ''</span><span class="mc-color-r"> World''
   \<and> replace_reset (section_sign @ ''r World'') = ''</span><span> World''
   \<and> (\<forall>line. replace_reset (replace_codes line) = replace_codes line)
   \<and> (\<forall>c rest. color_code c \<longrightarrow>
          replace_codes (section_sign @ c # rest)
          = ''</span><span class="mc-color-'' @ [c] @ ''">'' @ replace_codes rest)
   \<and> (\<forall>line. CHR ''<'' \<notin> set line \<longrightarrow>
          render_line line = ''<span>'' @ replace_codes line @ ''</span>''
          \<and> spans_balanced 0 (render_line line))
   \<and> (\<forall>ls. renderMOTD_script (JArr (map JStr ls))
              = Inr (join_strs ''<br>'' (map render_line ls)))\<close>
proof (intro conjI allI impI)
  show \<open>renderMOTD_script (JArr [JStr (section_sign @ ''aHello'' @ section_sign @ ''r World'')])
     = Inr ''<span></span><span class="mc-color-a">Hello</span><span class="mc-color-r"> World</span>''\<close>
    by (simp add: renderMOTD_script_def render_line_def section_sign_def color_code_def
          startsWith_def endsWith_def Let_def)
  show \<open>replace_codes (section_sign @ ''r World'') = ''</span><span class="mc-color-r"> World''\<close>
    by (simp add: section_sign_def color_code_def)
  show "replace_reset (section_sign @ ''r World'') = ''</span><span> World''"
    by (simp add: section_sign_def)
next
  fix line
  show "replace_reset (replace_codes line) = replace_codes line"
    by (rule replace_reset_dead)
next
  fix c rest
  assume "color_code c"
  then show \<open>replace_codes (section_sign @ c # rest)
          = ''</span><span class="mc-color-'' @ [c] @ ''">'' @ replace_codes rest\<close>
    by (simp add: section_sign_def)
next
  fix line
  assume "CHR ''<'' \<notin> set line"
  then show "render_line line = ''<span>'' @ replace_codes line @ ''</span>''"
    and "spans_balanced 0 (render_line line)"
    by (rule render_line_plain)+
next
  fix ls
  show "renderMOTD_script (JArr (map JStr ls)) = Inr (join_strs ''<br>'' (map render_line ls))"
    by (rule renderMOTD_script_strings)
qed

theorem reset_marker_rendered_as_colour_witness:
  \<open>CHR ''<'' \<notin> set (section_sign @ ''aHello'' @ section_sign @ ''r World'')
   \<and> color_code CHR ''r''
   \<and> spans_balanced 0 (render_line (section_sign @ ''aHello'' @ section_sign @ ''r World''))
   \<and> renderMOTD_script (JArr [JStr (section_sign @ ''aHello'' @ section_sign @ ''r World'')])
       \<noteq> Inr ''<span></span><span class="mc-color-a">Hello</span><span> World</span>''\<close>
proof -
  have plain: "CHR ''<'' \<notin> set (section_sign @ ''aHello'' @ section_sign @ ''r World'')"
    by (simp add: section_sign_def)
  have code: "color_code CHR ''r''"
    by (simp add: color_code_def)
  note claim = reset_marker_rendered_as_colour
  from claim plain
  have "spans_balanced 0 (render_line (section_sign @ ''aHello'' @ section_sign @ ''r World''))"
    by blast
  moreover from claim
  have \<open>renderMOTD_script (JArr [JStr (section_sign @ ''aHello'' @ section_sign @ ''r World'')])
       \<noteq> Inr ''<span></span><span class="mc-color-a">Hello</span><span> World</span>''\<close>
    by simp
  ultimately show ?thesis
    using plain code by blast
qed

subsection \<open>What a call returns\<close>

lemma or_js_defined: "b \<noteq> JUndef \<Longrightarrow> or_js a b \<noteq> JUndef"
  by (cases a) (auto simp: or_js_def)

lemma guarded_defined:
  "b \<noteq> JUndef \<Longrightarrow> (if truthy (and_js g v) then v else b) \<noteq> JUndef"
  by (auto simp: truthy_and_js)

lemma merged_icon:
  "(if truthy (and_js old (get old ''icon'')) then get old ''icon''
    else if truthy (get n ''favicon_url'') then get n ''favicon_url'' else JNull) \<noteq> JUndef"
  by (auto simp: truthy_and_js)

lemma merged_record:
  "\<not> nullish n \<Longrightarrow> projr (processServerData n old) =
          [(''online'', or_js (get n ''online'') (JBool False)),
           (''ip'', or_js (or_js (get n ''ip'')
                      (and_js old (get old ''ip''))) (JStr unknown_text)),
           (''port'', or_js (or_js (get n ''port'')
                      (and_js old (get old ''port''))) (JStr unknown_text)),
           (''hostname'', or_js (or_js (get n ''hostname'')
                      (and_js old (get old ''hostname''))) (JStr unknown_text)),
           (''icon'',
              if truthy (and_js old (get old ''icon'')) then get old ''icon''
              else if truthy (get n ''favicon_url'') then get n ''favicon_url'' else JNull),
           (''version'', or_js (or_js (get n ''version'')
                      (and_js old (get old ''version''))) (JStr unknown_text)),
           (''protocol'',
              or_js (and_js old (get old ''protocol'')) (JStr unknown_text)),
           (''protocolName'',
              or_js (and_js old (get old ''protocolName'')) (JStr unknown_text)),
           (''players'', JObj
              [(''online'',
                  or_js (get n ''players'')
                    (if truthy (and_js old (get old ''players''))
                     then get (get old ''players'') ''online'' else JNum 0)),
               (''max'',
                  or_js (get n ''max_players'')
                    (if truthy (and_js old (get old ''players''))
                     then get (get old ''players'') ''max'' else JNum 0)),
               (''list'',
                  if truthy (and_js (and_js old (get old ''players''))
                               (get (get old ''players'') ''list''))
                  then get (get old ''players'') ''list'' else JArr [])]),
           (''motd'', JObj
              [(''raw'', or_js (and_js (and_js old (get old ''motd''))
                                  (get (get old ''motd'') ''raw''))
                           (JArr [])),
               (''clean'', JArr
                  [or_js (or_js (get n ''motd_clean'')
                            (and_js (and_js (and_js old (get old ''motd''))
                                       (get (get old ''motd'') ''clean''))
                               (idx0 (get (get old ''motd'') ''clean''))))
                     (JStr [])]),
               (''html'', JArr
                  [or_js (or_js (get n ''motd_html'')
                            (and_js (and_js (and_js old (get old ''motd''))
                                       (get (get old ''motd'') ''html''))
                               (idx0 (get (get old ''motd'') ''html''))))
                     (JStr [])])]),
           (''debug'', JObj
              [(''ping'', JNull),
               (''query'',
                  or_js (and_js (and_js old (get old ''debug''))
                           (get (get old ''debug'') ''query''))
                    (JBool False)),
               (''cacheHit'', JBool False)]),
           (''software'',
              or_js (and_js old (get old ''software'')) (JStr unknown_text)),
           (''gamemode'',
              or_js (and_js old (get old ''gamemode'')) (JStr survival_text)),
           (''map'', or_js (and_js old (get old ''map'')) (JStr unknown_text)),
           (''plugins'', or_js (and_js old (get old ''plugins'')) (JArr []))]"
  by (simp add: processServerData_def Let_def)


lemma list_defined:
  "(if truthy (and_js g v) then v else JArr []) \<noteq> JUndef"
  by (auto simp: truthy_and_js)

lemma merged_populated:
  assumes "\<not> nullish n"
  shows "populated (projr (processServerData n old))"
  unfolding merged_record [OF assms] populated_def
  by (simp add: own_prop_def or_js_defined list_defined merged_icon del: if_split)

lemma merged_no_flags:
  "\<not> nullish n \<Longrightarrow>
     own_prop (projr (processServerData n old)) ''error'' = JUndef
     \<and> own_prop (projr (processServerData n old)) ''fromCache'' = JUndef"
  by (simp add: merged_record own_prop_def)


lemma populated_put_fromCache: "populated (put ''fromCache'' v s) = populated s"
  by (simp add: populated_def own_prop_put)

lemma populated_put_error: "populated (put ''error'' v s) = populated s"
  by (simp add: populated_def own_prop_put)

lemma fetched_populated:
  assumes "fst (fetchServerStatus h net a) = Inr s"
  shows "populated s \<and> own_prop s ''error'' = JUndef"
proof -
  from assms obtain n old where p: "processServerData n old = Inr s"
    using fetchServerStatus_Inr by blast
  then have n: "\<not> nullish n" and s: "s = projr (processServerData n old)"
    using processServerData_Inr by blast+
  show ?thesis
    unfolding s using merged_populated [OF n] merged_no_flags [OF n] by simp
qed

text \<open>The three ways a call returns, and the one way it throws.\<close>

lemma getServerStatus_cases:
  assumes "getServerStatus f c now a = (r, c', reqs)"
  obtains
    (hit) e where "c a = Some e" "now - timestamp e < cacheTimeout"
      "r = Inr (put ''fromCache'' (JBool True) (data e))" "c' = c" "reqs = []"
  | (fresh) d where "\<forall>e. c a = Some e \<longrightarrow> \<not> now - timestamp e < cacheTimeout"
      "f a = (Inr d, reqs)" "r = Inr (put ''fromCache'' (JBool False) d)"
      "c' = c(a \<mapsto> \<lparr>data = d, timestamp = now\<rparr>)"
  | (stale) e err where "c a = Some e" "\<not> now - timestamp e < cacheTimeout"
      "f a = (Inl err, reqs)"
      "r = Inr (put ''error'' (JBool True) (put ''fromCache'' (JBool True) (data e)))" "c' = c"
  | (thrown) err where "c a = None" "f a = (Inl err, reqs)" "r = Inl err" "c' = c"
proof (cases "c a")
  case None
  obtain res q where f: "f a = (res, q)" by (cases "f a")
  show ?thesis
  proof (cases res)
    case (Inl err)
    with None f assms show ?thesis
      by (intro thrown [of err]) (simp_all add: getServerStatus_def)
  next
    case (Inr d)
    with None f assms show ?thesis
      by (intro fresh [of d]) (auto simp: getServerStatus_def)
  qed
next
  case (Some e)
  show ?thesis
  proof (cases "now - timestamp e < cacheTimeout")
    case True
    with Some assms show ?thesis
      by (intro hit [of e]) (auto simp: getServerStatus_def Let_def)
  next
    case False
    obtain res q where f: "f a = (res, q)" by (cases "f a")
    show ?thesis
    proof (cases res)
      case (Inl err)
      with Some False f assms show ?thesis
        by (intro stale [of e err]) (auto simp: getServerStatus_def Let_def)
    next
      case (Inr d)
      with Some False f assms show ?thesis
        by (intro fresh [of d]) (auto simp: getServerStatus_def Let_def)
    qed
  qed
qed


lemma reachable_cache_populated:
  "reachable h c \<Longrightarrow> c a = Some e \<Longrightarrow>
     populated (data e) \<and> own_prop (data e) ''error'' = JUndef"
proof (induction arbitrary: a e rule: reachable.induct)
  case initial
  then show ?case by simp
next
  case (call c net now b r c' reqs)
  from call.hyps(2) show ?case
  proof (cases rule: getServerStatus_cases)
    case (fresh d)
    then have "populated d \<and> own_prop d ''error'' = JUndef"
      using fetched_populated [of h net b d] by simp
    with fresh call.IH call.prems show ?thesis
      by (cases "a = b") auto
  qed (use call.IH call.prems in auto)
qed

lemma fetch_both_apis:
  "fetchServerStatus h both_apis a = (Inr example_status, [NewApiRequest a, OldApiRequest a])"
  by (simp add: fetchServerStatus_def both_apis_def newApiData_of_def isNewApiValid_def
        own_prop_def merged_record nullish_def processServerData_def Let_def or_js_def
        and_js_def example_status_def)


lemma first_call:
  "getServerStatus (fetchServerStatus h both_apis) Map.empty 1000 ''play.simpfun.cn:30786''
   = (Inr (put ''fromCache'' (JBool False) example_status), example_cache,
      [NewApiRequest ''play.simpfun.cn:30786'', OldApiRequest ''play.simpfun.cn:30786''])"
  by (simp add: getServerStatus_def fetch_both_apis example_cache_def)

text \<open>
  What \<open>||\<close> and \<open>&&\<close> do in the merge, field by field: a field is the first
  truthy value among its sources, and its default when there is none.
\<close>

lemma processServerData_ok:
  "\<not> nullish n \<Longrightarrow> processServerData n old = Inr (projr (processServerData n old))"
  unfolding processServerData_def Let_def by (simp only: if_False sum.sel)

lemma or_and_js:
  "or_js (and_js g v) b = (if truthy g \<and> truthy v then v else b)"
  by (simp add: or_js_def and_js_def)

lemma or_or_and_js:
  "or_js (or_js a (and_js g v)) b =
     (if truthy a then a else if truthy g \<and> truthy v then v else b)"
  by (simp add: or_js_def and_js_def)

lemma merged_new_texts:
  assumes "\<not> nullish n"
  shows "\<forall>k \<in> set [''ip'', ''port'', ''hostname'', ''version''].
           own_prop (projr (processServerData n old)) k =
             (if truthy (get n k) then get n k
              else if truthy old \<and> truthy (get old k) then get old k
              else JStr unknown_text)"
  unfolding merged_record [OF assms] by (simp add: own_prop_def or_or_and_js)

lemma merged_old_texts:
  assumes "\<not> nullish n"
  shows "\<forall>k \<in> set [''protocol'', ''protocolName'', ''software'', ''map''].
           own_prop (projr (processServerData n old)) k =
             (if truthy old \<and> truthy (get old k) then get old k else JStr unknown_text)"
  unfolding merged_record [OF assms] by (simp add: own_prop_def or_and_js)

lemma merged_gamemode_plugins:
  assumes "\<not> nullish n"
  shows "own_prop (projr (processServerData n old)) ''gamemode'' =
           (if truthy old \<and> truthy (get old ''gamemode'') then get old ''gamemode''
            else JStr survival_text)"
    and "own_prop (projr (processServerData n old)) ''plugins'' =
           (if truthy old \<and> truthy (get old ''plugins'') then get old ''plugins''
            else JArr [])"
  unfolding merged_record [OF assms] by (simp_all add: own_prop_def or_and_js)

lemma merged_icon_field:
  assumes "\<not> nullish n"
  shows "own_prop (projr (processServerData n old)) ''icon'' =
           (if truthy old \<and> truthy (get old ''icon'') then get old ''icon''
            else if truthy (get n ''favicon_url'') then get n ''favicon_url''
            else JNull)"
  unfolding merged_record [OF assms] by (simp add: own_prop_def truthy_and_js)

lemma merged_players_field:
  assumes "\<not> nullish n"
  shows "own_prop (projr (processServerData n old)) ''players'' =
           JObj [(''online'',
                    if truthy (get n ''players'') then get n ''players''
                    else if truthy old \<and> truthy (get old ''players'')
                    then get (get old ''players'') ''online''
                    else JNum 0),
                 (''max'',
                    if truthy (get n ''max_players'') then get n ''max_players''
                    else if truthy old \<and> truthy (get old ''players'')
                    then get (get old ''players'') ''max''
                    else JNum 0),
                 (''list'',
                    if truthy old \<and> truthy (get old ''players'')
                       \<and> truthy (get (get old ''players'') ''list'')
                    then get (get old ''players'') ''list''
                    else JArr [])]"
  unfolding merged_record [OF assms]
  by (simp add: own_prop_def or_js_def truthy_and_js)

lemma merged_motd_field:
  assumes "\<not> nullish n"
  shows "own_prop (projr (processServerData n old)) ''motd'' =
           JObj [(''raw'',
                    if truthy old \<and> truthy (get old ''motd'')
                       \<and> truthy (get (get old ''motd'') ''raw'')
                    then get (get old ''motd'') ''raw''
                    else JArr []),
                 (''clean'', JArr
                    [if truthy (get n ''motd_clean'') then get n ''motd_clean''
                     else if truthy old \<and> truthy (get old ''motd'')
                             \<and> truthy (get (get old ''motd'') ''clean'')
                             \<and> truthy (idx0 (get (get old ''motd'') ''clean''))
                     then idx0 (get (get old ''motd'') ''clean'')
                     else JStr []]),
                 (''html'', JArr
                    [if truthy (get n ''motd_html'') then get n ''motd_html''
                     else if truthy old \<and> truthy (get old ''motd'')
                             \<and> truthy (get (get old ''motd'') ''html'')
                             \<and> truthy (idx0 (get (get old ''motd'') ''html''))
                     then idx0 (get (get old ''motd'') ''html'')
                     else JStr []])]"
  unfolding merged_record [OF assms]
  by (simp add: own_prop_def or_js_def and_js_def)

lemma merged_debug_field:
  assumes "\<not> nullish n"
  shows "own_prop (projr (processServerData n old)) ''debug'' =
           JObj [(''ping'', JNull),
                 (''query'',
                    if truthy old \<and> truthy (get old ''debug'')
                       \<and> truthy (get (get old ''debug'') ''query'')
                    then get (get old ''debug'') ''query''
                    else JBool False),
                 (''cacheHit'', JBool False)]"
  unfolding merged_record [OF assms]
  by (simp add: own_prop_def or_js_def and_js_def)

lemma merged_online_field:
  assumes "\<not> nullish n"
  shows "own_prop (projr (processServerData n old)) ''online'' =
           (if truthy (get n ''online'') then get n ''online'' else JBool False)"
  using merged_online [OF assms] by (simp add: or_js_def)

lemma merged_keys:
  assumes "\<not> nullish n"
  shows "map fst (projr (processServerData n old)) =
           [''online'', ''ip'', ''port'', ''hostname'', ''icon'', ''version'', ''protocol'',
            ''protocolName'', ''players'', ''motd'', ''debug'', ''software'', ''gamemode'',
            ''map'', ''plugins'']"
  unfolding merged_record [OF assms] by simp

lemma reachable_cache_merged:
  "reachable h c \<Longrightarrow> c a = Some e \<Longrightarrow> \<exists>n old. processServerData n old = Inr (data e)"
proof (induction arbitrary: a e rule: reachable.induct)
  case initial
  then show ?case by simp
next
  case (call c net now b r c' reqs)
  from call.hyps(2) show ?case
  proof (cases rule: getServerStatus_cases)
    case (fresh d)
    then have ex: "\<exists>n old. processServerData n old = Inr d"
      using fetchServerStatus_Inr [of h net b d] by simp
    show ?thesis
    proof (cases "a = b")
      case True
      with fresh call.prems have "data e = d" by auto
      with ex show ?thesis by simp
    next
      case False
      with fresh call.prems have "c a = Some e" by simp
      then show ?thesis by (rule call.IH)
    qed
  qed (use call.IH call.prems in auto)
qed

lemma returned_status_merged:
  assumes "reachable h c"
    and "getServerStatus (fetchServerStatus h net) c now a = (Inr s, c', reqs)"
  shows "\<exists>n old d. processServerData n old = Inr d
           \<and> (s = put ''fromCache'' (JBool False) d
               \<or> s = put ''fromCache'' (JBool True) d
               \<or> s = put ''error'' (JBool True) (put ''fromCache'' (JBool True) d))"
  using assms(2)
proof (cases rule: getServerStatus_cases)
  case (hit e)
  with reachable_cache_merged [OF assms(1) hit(1)] show ?thesis by auto
next
  case (fresh d)
  then have "\<exists>n old. processServerData n old = Inr d"
    using fetchServerStatus_Inr [of h net a d] by simp
  with fresh show ?thesis by auto
next
  case (stale e err)
  with reachable_cache_merged [OF assms(1) stale(1)] show ?thesis by auto
next
  case (thrown err)
  then show ?thesis by simp
qed

text \<open>
  C8, as the code has it. Every status \<open>getServerStatus\<close> returns, on each of its three
  paths and from every cache the manager can reach, is a record built by
  \<open>processServerData\<close> with \<open>fromCache\<close> added, and \<open>error = true\<close> added when
  a stale entry is served after a failed refresh; \<open>error\<close> is absent otherwise. It has
  the top-level fields of the merged record, \<open>players.list\<close>, the MOTD arrays and the
  debug fields defined, and \<open>fromCache\<close> is a boolean. In the record that
  \<open>processServerData\<close> builds every field is the first truthy value among its
  sources and its default when there is none: \<open>false\<close> for \<open>online\<close> and
  \<open>debug.query\<close>, the text "unknown" for the texts, the text "survival" for the game
  mode, \<open>null\<close> for the icon and the ping, the empty array for \<open>plugins\<close>,
  \<open>players.list\<close> and \<open>motd.raw\<close>, the empty string for the MOTD lines. The
  player counts are the new API's when truthy, else the old API's \<open>players.online\<close>
  and \<open>players.max\<close> as they are (defined or not) when the old API has a \<open>players\<close>
  record, else \<open>0\<close>.
\<close>

theorem returned_status_populated:
  "(reachable h c \<and> getServerStatus (fetchServerStatus h net) c now a = (Inr s, c', reqs) \<longrightarrow>
     populated s
     \<and> (own_prop s ''fromCache'' = JBool True \<or> own_prop s ''fromCache'' = JBool False)
     \<and> (own_prop s ''error'' = JBool True \<or> own_prop s ''error'' = JUndef)
     \<and> (own_prop s ''error'' = JBool True \<longleftrightarrow>
          (\<exists>e. c a = Some e \<and> \<not> now - timestamp e < cacheTimeout
               \<and> isl (fst (fetchServerStatus h net a))))
     \<and> reachable h c'
     \<and> (\<exists>n old d. processServerData n old = Inr d
           \<and> (s = put ''fromCache'' (JBool False) d
               \<or> s = put ''fromCache'' (JBool True) d
               \<or> s = put ''error'' (JBool True) (put ''fromCache'' (JBool True) d))))
   \<and> (processServerData n old = Inr d \<longrightarrow>
        map fst d =
          [''online'', ''ip'', ''port'', ''hostname'', ''icon'', ''version'', ''protocol'',
           ''protocolName'', ''players'', ''motd'', ''debug'', ''software'', ''gamemode'',
           ''map'', ''plugins'']
        \<and> own_prop d ''online'' =
            (if truthy (get n ''online'') then get n ''online'' else JBool False)
        \<and> (\<forall>k \<in> set [''ip'', ''port'', ''hostname'', ''version''].
              own_prop d k =
                (if truthy (get n k) then get n k
                 else if truthy old \<and> truthy (get old k) then get old k
                 else JStr unknown_text))
        \<and> (\<forall>k \<in> set [''protocol'', ''protocolName'', ''software'', ''map''].
              own_prop d k =
                (if truthy old \<and> truthy (get old k) then get old k else JStr unknown_text))
        \<and> own_prop d ''gamemode'' =
            (if truthy old \<and> truthy (get old ''gamemode'') then get old ''gamemode''
             else JStr survival_text)
        \<and> own_prop d ''plugins'' =
            (if truthy old \<and> truthy (get old ''plugins'') then get old ''plugins''
             else JArr [])
        \<and> own_prop d ''icon'' =
            (if truthy old \<and> truthy (get old ''icon'') then get old ''icon''
             else if truthy (get n ''favicon_url'') then get n ''favicon_url''
             else JNull)
        \<and> own_prop d ''players'' =
            JObj [(''online'',
                     if truthy (get n ''players'') then get n ''players''
                     else if truthy old \<and> truthy (get old ''players'')
                     then get (get old ''players'') ''online''
                     else JNum 0),
                  (''max'',
                     if truthy (get n ''max_players'') then get n ''max_players''
                     else if truthy old \<and> truthy (get old ''players'')
                     then get (get old ''players'') ''max''
                     else JNum 0),
                  (''list'',
                     if truthy old \<and> truthy (get old ''players'')
                        \<and> truthy (get (get old ''players'') ''list'')
                     then get (get old ''players'') ''list''
                     else JArr [])]
        \<and> own_prop d ''motd'' =
            JObj [(''raw'',
                     if truthy old \<and> truthy (get old ''motd'')
                        \<and> truthy (get (get old ''motd'') ''raw'')
                     then get (get old ''motd'') ''raw''
                     else JArr []),
                  (''clean'', JArr
                     [if truthy (get n ''motd_clean'') then get n ''motd_clean''
                      else if truthy old \<and> truthy (get old ''motd'')
                              \<and> truthy (get (get old ''motd'') ''clean'')
                              \<and> truthy (idx0 (get (get old ''motd'') ''clean''))
                      then idx0 (get (get old ''motd'') ''clean'')
                      else JStr []]),
                  (''html'', JArr
                     [if truthy (get n ''motd_html'') then get n ''motd_html''
                      else if truthy old \<and> truthy (get old ''motd'')
                              \<and> truthy (get (get old ''motd'') ''html'')
                              \<and> truthy (idx0 (get (get old ''motd'') ''html''))
                      then idx0 (get (get old ''motd'') ''html'')
                      else JStr []])]
        \<and> own_prop d ''debug'' =
            JObj [(''ping'', JNull),
                  (''query'',
                     if truthy old \<and> truthy (get old ''debug'')
                        \<and> truthy (get (get old ''debug'') ''query'')
                     then get (get old ''debug'') ''query''
                     else JBool False),
                  (''cacheHit'', JBool False)])"
proof (intro conjI impI)
  assume asm: "reachable h c \<and> getServerStatus (fetchServerStatus h net) c now a = (Inr s, c', reqs)"
  then have rc: "reachable h c"
    and g: "getServerStatus (fetchServerStatus h net) c now a = (Inr s, c', reqs)"
    by blast+
  show "reachable h c'"
    using rc g by (rule reachable.call)
  show "\<exists>n old d. processServerData n old = Inr d
           \<and> (s = put ''fromCache'' (JBool False) d
               \<or> s = put ''fromCache'' (JBool True) d
               \<or> s = put ''error'' (JBool True) (put ''fromCache'' (JBool True) d))"
    using rc g by (rule returned_status_merged)
  from g have "populated s
     \<and> (own_prop s ''fromCache'' = JBool True \<or> own_prop s ''fromCache'' = JBool False)
     \<and> (own_prop s ''error'' = JBool True \<or> own_prop s ''error'' = JUndef)
     \<and> (own_prop s ''error'' = JBool True \<longleftrightarrow>
          (\<exists>e. c a = Some e \<and> \<not> now - timestamp e < cacheTimeout
               \<and> isl (fst (fetchServerStatus h net a))))"
  proof (cases rule: getServerStatus_cases)
    case (hit e)
    moreover have "populated (data e) \<and> own_prop (data e) ''error'' = JUndef"
      using reachable_cache_populated [OF rc hit(1)] .
    ultimately show ?thesis
      by (simp add: populated_put_fromCache own_prop_put)
  next
    case (fresh d)
    then have "populated d \<and> own_prop d ''error'' = JUndef"
      using fetched_populated [of h net a d] by simp
    with fresh show ?thesis
      by (simp add: populated_put_fromCache own_prop_put)
  next
    case (stale e err)
    moreover have "populated (data e) \<and> own_prop (data e) ''error'' = JUndef"
      using reachable_cache_populated [OF rc stale(1)] .
    ultimately show ?thesis
      by (simp add: populated_put_fromCache populated_put_error own_prop_put)
  next
    case (thrown err)
    then show ?thesis by simp
  qed
  then show "populated s"
    and "own_prop s ''fromCache'' = JBool True \<or> own_prop s ''fromCache'' = JBool False"
    and "own_prop s ''error'' = JBool True \<or> own_prop s ''error'' = JUndef"
    and "own_prop s ''error'' = JBool True \<longleftrightarrow>
          (\<exists>e. c a = Some e \<and> \<not> now - timestamp e < cacheTimeout
               \<and> isl (fst (fetchServerStatus h net a)))"
    by blast+
next
  assume "processServerData n old = Inr d"
  then have n: "\<not> nullish n" and d: "d = projr (processServerData n old)"
    using processServerData_Inr by blast+
  show "map fst d =
          [''online'', ''ip'', ''port'', ''hostname'', ''icon'', ''version'', ''protocol'',
           ''protocolName'', ''players'', ''motd'', ''debug'', ''software'', ''gamemode'',
           ''map'', ''plugins'']"
    unfolding d by (rule merged_keys [OF n])
  show "own_prop d ''online'' =
            (if truthy (get n ''online'') then get n ''online'' else JBool False)"
    unfolding d by (rule merged_online_field [OF n])
  show "\<forall>k \<in> set [''ip'', ''port'', ''hostname'', ''version''].
              own_prop d k =
                (if truthy (get n k) then get n k
                 else if truthy old \<and> truthy (get old k) then get old k
                 else JStr unknown_text)"
    unfolding d by (rule merged_new_texts [OF n])
  show "\<forall>k \<in> set [''protocol'', ''protocolName'', ''software'', ''map''].
              own_prop d k =
                (if truthy old \<and> truthy (get old k) then get old k else JStr unknown_text)"
    unfolding d by (rule merged_old_texts [OF n])
  show "own_prop d ''gamemode'' =
            (if truthy old \<and> truthy (get old ''gamemode'') then get old ''gamemode''
             else JStr survival_text)"
    unfolding d by (rule merged_gamemode_plugins(1) [OF n])
  show "own_prop d ''plugins'' =
            (if truthy old \<and> truthy (get old ''plugins'') then get old ''plugins''
             else JArr [])"
    unfolding d by (rule merged_gamemode_plugins(2) [OF n])
  show "own_prop d ''icon'' =
            (if truthy old \<and> truthy (get old ''icon'') then get old ''icon''
             else if truthy (get n ''favicon_url'') then get n ''favicon_url''
             else JNull)"
    unfolding d by (rule merged_icon_field [OF n])
  show "own_prop d ''players'' =
            JObj [(''online'',
                     if truthy (get n ''players'') then get n ''players''
                     else if truthy old \<and> truthy (get old ''players'')
                     then get (get old ''players'') ''online''
                     else JNum 0),
                  (''max'',
                     if truthy (get n ''max_players'') then get n ''max_players''
                     else if truthy old \<and> truthy (get old ''players'')
                     then get (get old ''players'') ''max''
                     else JNum 0),
                  (''list'',
                     if truthy old \<and> truthy (get old ''players'')
                        \<and> truthy (get (get old ''players'') ''list'')
                     then get (get old ''players'') ''list''
                     else JArr [])]"
    unfolding d by (rule merged_players_field [OF n])
  show "own_prop d ''motd'' =
            JObj [(''raw'',
                     if truthy old \<and> truthy (get old ''motd'')
                        \<and> truthy (get (get old ''motd'') ''raw'')
                     then get (get old ''motd'') ''raw''
                     else JArr []),
                  (''clean'', JArr
                     [if truthy (get n ''motd_clean'') then get n ''motd_clean''
                      else if truthy old \<and> truthy (get old ''motd'')
                              \<and> truthy (get (get old ''motd'') ''clean'')
                              \<and> truthy (idx0 (get (get old ''motd'') ''clean''))
                      then idx0 (get (get old ''motd'') ''clean'')
                      else JStr []]),
                  (''html'', JArr
                     [if truthy (get n ''motd_html'') then get n ''motd_html''
                      else if truthy old \<and> truthy (get old ''motd'')
                              \<and> truthy (get (get old ''motd'') ''html'')
                              \<and> truthy (idx0 (get (get old ''motd'') ''html''))
                      then idx0 (get (get old ''motd'') ''html'')
                      else JStr []])]"
    unfolding d by (rule merged_motd_field [OF n])
  show "own_prop d ''debug'' =
            JObj [(''ping'', JNull),
                  (''query'',
                     if truthy old \<and> truthy (get old ''debug'')
                        \<and> truthy (get (get old ''debug'') ''query'')
                     then get (get old ''debug'') ''query''
                     else JBool False),
                  (''cacheHit'', JBool False)]"
    unfolding d by (rule merged_debug_field [OF n])
qed

theorem returned_status_populated_witness:
  "reachable example_host Map.empty
   \<and> getServerStatus (fetchServerStatus example_host both_apis) Map.empty 1000
        ''play.simpfun.cn:30786''
      = (Inr (put ''fromCache'' (JBool False) example_status), example_cache,
         [NewApiRequest ''play.simpfun.cn:30786'', OldApiRequest ''play.simpfun.cn:30786''])
   \<and> populated (put ''fromCache'' (JBool False) example_status)
   \<and> own_prop (put ''fromCache'' (JBool False) example_status) ''fromCache'' = JBool False
   \<and> reachable example_host example_cache
   \<and> processServerData (JObj [(''code'', JNum 200), (''online'', JBool False)]) JNull
       = Inr default_status
   \<and> own_prop default_status ''online'' = JBool False
   \<and> own_prop default_status ''hostname'' = JStr unknown_text
   \<and> own_prop default_status ''software'' = JStr unknown_text
   \<and> own_prop default_status ''gamemode'' = JStr survival_text
   \<and> own_prop default_status ''plugins'' = JArr []
   \<and> own_prop default_status ''icon'' = JNull
   \<and> own_prop default_status ''players''
       = JObj [(''online'', JNum 0), (''max'', JNum 0), (''list'', JArr [])]
   \<and> own_prop default_status ''motd''
       = JObj [(''raw'', JArr []), (''clean'', JArr [JStr []]), (''html'', JArr [JStr []])]
   \<and> own_prop default_status ''debug''
       = JObj [(''ping'', JNull), (''query'', JBool False), (''cacheHit'', JBool False)]"
proof -
  have r: "reachable example_host Map.empty"
    by (rule reachable.initial)
  note call = first_call [of example_host]
  note t = returned_status_populated
    [where h = example_host and c = Map.empty and net = both_apis and now = 1000
       and a = "''play.simpfun.cn:30786''"
       and s = "put ''fromCache'' (JBool False) example_status" and c' = example_cache
       and reqs = "[NewApiRequest ''play.simpfun.cn:30786'',
                    OldApiRequest ''play.simpfun.cn:30786'']"
       and n = "JObj [(''code'', JNum 200), (''online'', JBool False)]" and old = JNull
       and d = default_status]
  from t [THEN conjunct1, THEN mp, OF conjI, OF r call]
  have "populated (put ''fromCache'' (JBool False) example_status)"
    and "reachable example_host example_cache"
    by blast+
  moreover have "own_prop (put ''fromCache'' (JBool False) example_status) ''fromCache''
                   = JBool False"
    by (simp add: own_prop_put)
  moreover have proc: "processServerData (JObj [(''code'', JNum 200), (''online'', JBool False)]) JNull
       = Inr default_status"
    by (simp add: processServerData_def nullish_def Let_def or_js_def and_js_def own_prop_def
          default_status_def)
  moreover from t [THEN conjunct2, THEN mp, OF proc]
  have "own_prop default_status ''online'' = JBool False
   \<and> own_prop default_status ''hostname'' = JStr unknown_text
   \<and> own_prop default_status ''software'' = JStr unknown_text
   \<and> own_prop default_status ''gamemode'' = JStr survival_text
   \<and> own_prop default_status ''plugins'' = JArr []
   \<and> own_prop default_status ''icon'' = JNull
   \<and> own_prop default_status ''players''
       = JObj [(''online'', JNum 0), (''max'', JNum 0), (''list'', JArr [])]
   \<and> own_prop default_status ''motd''
       = JObj [(''raw'', JArr []), (''clean'', JArr [JStr []]), (''html'', JArr [JStr []])]
   \<and> own_prop default_status ''debug''
       = JObj [(''ping'', JNull), (''query'', JBool False), (''cacheHit'', JBool False)]"
    by (simp add: own_prop_def)
  ultimately show ?thesis
    using r call by blast
qed

text \<open>
  C8, as stated, fails on a first, successful call: the returned status has no field
  \<open>error\<close>. In this example (the new API reports the server online without a player
  count, the old API supplies the player list without counts) \<open>players.online\<close> and
  \<open>players.max\<close> are undefined as well.
\<close>

theorem fresh_status_lacks_error_field:
  "getServerStatus (fetchServerStatus example_host both_apis) Map.empty 1000
       ''play.simpfun.cn:30786''
     = (Inr (put ''fromCache'' (JBool False) example_status), example_cache,
        [NewApiRequest ''play.simpfun.cn:30786'', OldApiRequest ''play.simpfun.cn:30786''])
   \<and> own_prop (put ''fromCache'' (JBool False) example_status) ''error'' = JUndef
   \<and> get (own_prop (put ''fromCache'' (JBool False) example_status) ''players'') ''online''
       = JUndef
   \<and> get (own_prop (put ''fromCache'' (JBool False) example_status) ''players'') ''max''
       = JUndef"
  by (simp add: first_call own_prop_put) (simp add: example_status_def own_prop_def)

subsection \<open>Serving from the cache\<close>









subsection \<open>Who can change a cache entry\<close>

lemma refs_below_mono: "refs_below b v \<Longrightarrow> b \<le> b' \<Longrightarrow> refs_below b' v"
  by (cases v) auto

lemma cell_below_mono: "cell_below b c \<Longrightarrow> b \<le> b' \<Longrightarrow> cell_below b' c"
  by (cases c) (auto simp: list_all_iff intro: refs_below_mono)

lemma closed_store_snoc:
  "closed_store st \<Longrightarrow> cell_below (length st) c \<Longrightarrow> closed_store (st @ [c])"
  by (auto simp: closed_store_def list_all_iff intro: cell_below_mono)

lemma alloc_closed:
  "alloc v st = (hv, st') \<Longrightarrow> closed_store st \<Longrightarrow>
     (\<exists>new. st' = st @ new) \<and> closed_store st' \<and> refs_below (length st') hv"
  "alloc_elems xs st = (vs, st') \<Longrightarrow> closed_store st \<Longrightarrow>
     (\<exists>new. st' = st @ new) \<and> closed_store st' \<and> list_all (refs_below (length st')) vs"
  "alloc_props ps st = (fs, st') \<Longrightarrow> closed_store st \<Longrightarrow>
     (\<exists>new. st' = st @ new) \<and> closed_store st'
     \<and> list_all (\<lambda>p. refs_below (length st') (snd p)) fs"
proof (induction v st and xs st and ps st arbitrary: hv st' and vs st' and fs st'
       rule: alloc_alloc_elems_alloc_props.induct)
  case (1 xs st)
  obtain ws st1 where a: "alloc_elems xs st = (ws, st1)"
    by (cases "alloc_elems xs st")
  with 1 have ih: "(\<exists>new. st1 = st @ new) \<and> closed_store st1
      \<and> list_all (refs_below (length st1)) ws"
    by blast
  from 1(2) a have r: "hv = HRef (length st1)" "st' = st1 @ [ArrCell ws]"
    by auto
  from ih have "closed_store (st1 @ [ArrCell ws])"
    by (intro closed_store_snoc) auto
  with ih r show ?case by auto
next
  case (2 ps st)
  obtain gs st1 where a: "alloc_props ps st = (gs, st1)"
    by (cases "alloc_props ps st")
  with 2 have ih: "(\<exists>new. st1 = st @ new) \<and> closed_store st1
      \<and> list_all (\<lambda>p. refs_below (length st1) (snd p)) gs"
    by blast
  from 2(2) a have r: "hv = HRef (length st1)" "st' = st1 @ [ObjCell gs]"
    by auto
  from ih have "closed_store (st1 @ [ObjCell gs])"
    by (intro closed_store_snoc) auto
  with ih r show ?case by auto
next
  case (10 x xs st)
  obtain v st1 where a: "alloc x st = (v, st1)"
    by (cases "alloc x st")
  obtain ws st2 where b: "alloc_elems xs st1 = (ws, st2)"
    by (cases "alloc_elems xs st1")
  from 10(1) [OF a] 10(4) have i1: "(\<exists>new. st1 = st @ new) \<and> closed_store st1
      \<and> refs_below (length st1) v"
    by blast
  from 10(2) [OF a [symmetric] b] i1 have i2: "(\<exists>new. st2 = st1 @ new) \<and> closed_store st2
      \<and> list_all (refs_below (length st2)) ws"
    by blast
  from 10(3) a b have r: "vs = v # ws" "st' = st2"
    by auto
  from i1 i2 have "refs_below (length st2) v"
    by (auto intro: refs_below_mono)
  with i1 i2 r show ?case by auto
next
  case (12 p ps st)
  obtain v st1 where a: "alloc (snd p) st = (v, st1)"
    by (cases "alloc (snd p) st")
  obtain gs st2 where b: "alloc_props ps st1 = (gs, st2)"
    by (cases "alloc_props ps st1")
  from 12(1) [OF a] 12(4) have i1: "(\<exists>new. st1 = st @ new) \<and> closed_store st1
      \<and> refs_below (length st1) v"
    by blast
  from 12(2) [OF a [symmetric] b] i1 have i2: "(\<exists>new. st2 = st1 @ new) \<and> closed_store st2
      \<and> list_all (\<lambda>p. refs_below (length st2) (snd p)) gs"
    by blast
  from 12(3) a b have r: "fs = (fst p, v) # gs" "st' = st2"
    by auto
  from i1 i2 have "refs_below (length st2) v"
    by (auto intro: refs_below_mono)
  with i1 i2 r show ?case by auto
qed auto

text \<open>
  Reading through a reference below \<open>b\<close> looks only at the cells below \<open>b\<close>, when
  those cells refer only to each other.
\<close>

lemma deep_frame:
  assumes same: "take b st2 = take b st"
    and len: "b \<le> length st" "b \<le> length st2"
    and closed: "list_all (cell_below b) (take b st)"
  shows "refs_below b v \<Longrightarrow> deep n st2 v = deep n st v"
proof (induction n arbitrary: v)
  case 0
  then show ?case by (cases v) simp_all
next
  case (Suc n)
  show ?case
  proof (cases v)
    case (HPrim x)
    then show ?thesis by simp
  next
    case (HRef a)
    with Suc.prems have a: "a < b" by simp
    have eq: "st2 ! a = st ! a"
      using a same by (metis nth_take)
    have "cell_below b (take b st ! a)"
      using closed a len by (simp add: list_all_length)
    then have below: "cell_below b (st ! a)"
      using a by simp
    show ?thesis
    proof (cases "st ! a")
      case (ObjCell fs)
      with below have "\<forall>p \<in> set fs. refs_below b (snd p)"
        by (simp add: list_all_iff)
      then have "map (\<lambda>p. (fst p, deep n st2 (snd p))) fs
                 = map (\<lambda>p. (fst p, deep n st (snd p))) fs"
        using Suc.IH by simp
      with HRef a len eq ObjCell show ?thesis by simp
    next
      case (ArrCell vs)
      with below have "\<forall>x \<in> set vs. refs_below b x"
        by (simp add: list_all_iff)
      then have "map (deep n st2) vs = map (deep n st) vs"
        using Suc.IH by simp
      with HRef a len eq ArrCell show ?thesis by simp
    qed
  qed
qed

lemma put_keeps:
  "list_all (\<lambda>p. P (snd p)) fs \<Longrightarrow> P v \<Longrightarrow> list_all (\<lambda>p. P (snd p)) (put k v fs)"
  by (induction fs) auto

lemma fold_put_keeps:
  "list_all (\<lambda>p. P (snd p)) extra \<Longrightarrow> list_all (\<lambda>p. P (snd p)) fs \<Longrightarrow>
     list_all (\<lambda>p. P (snd p)) (fold (\<lambda>p. put (fst p) (snd p)) extra fs)"
  by (induction extra arbitrary: fs) (auto intro: put_keeps)

lemma own_props_below:
  assumes "closed_store st"
  shows "list_all (\<lambda>p. refs_below (length st) (snd p)) (own_props st a)"
proof (cases "a < length st")
  case False
  then show ?thesis by (simp add: own_props_def)
next
  case True
  with assms have below: "cell_below (length st) (st ! a)"
    by (simp add: closed_store_def list_all_length)
  show ?thesis
  proof (cases "st ! a")
    case (ObjCell fs)
    with True below show ?thesis by (simp add: own_props_def)
  next
    case (ArrCell vs)
    with below have "\<forall>x \<in> set vs. refs_below (length st) x"
      by (simp add: list_all_iff)
    then have "\<forall>p \<in> set (zip (map decimal [0..<length vs]) vs). refs_below (length st) (snd p)"
      by (auto dest: set_zip_rightD)
    with True ArrCell show ?thesis by (simp add: own_props_def list_all_iff)
  qed
qed

lemma spread_closed:
  assumes "closed_store st" and "list_all (\<lambda>p. refs_below (length st) (snd p)) extra"
  shows "closed_store (snd (spread src extra st))"
proof -
  have "cell_below (length st)
          (ObjCell (fold (\<lambda>p. put (fst p) (snd p)) extra (own_props st src)))"
    using assms own_props_below [OF assms(1), of src]
    by (simp add: fold_put_keeps)
  then show ?thesis
    using assms(1) by (simp add: spread_def closed_store_snoc)
qed








subsection \<open>The store model and the record model agree\<close>

text \<open>
  Appending cells to a store without dangling references changes nothing that could be
  read before, and what \<open>alloc\<close> builds reads back as the value it was built from.
\<close>

lemma deep_append:
  assumes "closed_store st" and "refs_below (length st) v"
  shows "deep n (st @ new) v = deep n st v"
proof -
  have "take (length st) (st @ new) = take (length st) st"
    by simp
  moreover have "list_all (cell_below (length st)) (take (length st) st)"
    using assms(1) by (simp add: closed_store_def)
  ultimately show ?thesis
    using assms(2) by (intro deep_frame) simp_all
qed

lemma alloc_reads:
  "alloc v st = (hv, st') \<Longrightarrow> closed_store st \<Longrightarrow>
     \<exists>m. \<forall>n. m \<le> n \<longrightarrow> deep n st' hv = v"
  "alloc_elems xs st = (vs, st') \<Longrightarrow> closed_store st \<Longrightarrow>
     \<exists>m. \<forall>n. m \<le> n \<longrightarrow> map (deep n st') vs = xs"
  "alloc_props ps st = (fs, st') \<Longrightarrow> closed_store st \<Longrightarrow>
     \<exists>m. \<forall>n. m \<le> n \<longrightarrow> map (\<lambda>p. (fst p, deep n st' (snd p))) fs = ps"
proof (induction v st and xs st and ps st arbitrary: hv st' and vs st' and fs st'
       rule: alloc_alloc_elems_alloc_props.induct)
  case (1 xs st)
  obtain ws st1 where a: "alloc_elems xs st = (ws, st1)"
    by (cases "alloc_elems xs st")
  from 1(1) [OF a 1(3)] obtain m where m: "\<forall>n. m \<le> n \<longrightarrow> map (deep n st1) ws = xs"
    by blast
  from alloc_closed(2) [OF a 1(3)] have cl: "closed_store st1"
    and below: "list_all (refs_below (length st1)) ws"
    by blast+
  from 1(2) a have r: "hv = HRef (length st1)" "st' = st1 @ [ArrCell ws]"
    by auto
  have same: "map (deep n st') ws = map (deep n st1) ws" for n
    unfolding r using below cl by (auto simp: list_all_iff deep_append)
  have "\<forall>n. Suc m \<le> n \<longrightarrow> deep n st' hv = JArr xs"
  proof (intro allI impI)
    fix n
    assume "Suc m \<le> n"
    then obtain k where k: "n = Suc k" "m \<le> k"
      by (cases n) auto
    have "deep (Suc k) st' (HRef (length st1)) = JArr (map (deep k st') ws)"
      unfolding r by simp
    with same [of k] m k show "deep n st' hv = JArr xs"
      unfolding r(1) by simp
  qed
  then show ?case by blast
next
  case (2 ps st)
  obtain gs st1 where a: "alloc_props ps st = (gs, st1)"
    by (cases "alloc_props ps st")
  from 2(1) [OF a 2(3)] obtain m
    where m: "\<forall>n. m \<le> n \<longrightarrow> map (\<lambda>p. (fst p, deep n st1 (snd p))) gs = ps"
    by blast
  from alloc_closed(3) [OF a 2(3)] have cl: "closed_store st1"
    and below: "list_all (\<lambda>p. refs_below (length st1) (snd p)) gs"
    by blast+
  from 2(2) a have r: "hv = HRef (length st1)" "st' = st1 @ [ObjCell gs]"
    by auto
  have same: "map (\<lambda>p. (fst p, deep n st' (snd p))) gs
              = map (\<lambda>p. (fst p, deep n st1 (snd p))) gs" for n
    unfolding r using below cl by (auto simp: list_all_iff deep_append)
  have "\<forall>n. Suc m \<le> n \<longrightarrow> deep n st' hv = JObj ps"
  proof (intro allI impI)
    fix n
    assume "Suc m \<le> n"
    then obtain k where k: "n = Suc k" "m \<le> k"
      by (cases n) auto
    have "deep (Suc k) st' (HRef (length st1))
          = JObj (map (\<lambda>p. (fst p, deep k st' (snd p))) gs)"
      unfolding r by simp
    with same [of k] m k show "deep n st' hv = JObj ps"
      unfolding r(1) by simp
  qed
  then show ?case by blast
next
  case (10 x xs st)
  obtain v st1 where a: "alloc x st = (v, st1)"
    by (cases "alloc x st")
  obtain ws st2 where b: "alloc_elems xs st1 = (ws, st2)"
    by (cases "alloc_elems xs st1")
  from alloc_closed(1) [OF a 10(4)] have cl1: "closed_store st1"
    and below: "refs_below (length st1) v"
    by blast+
  from alloc_closed(2) [OF b cl1] obtain new where new: "st2 = st1 @ new"
    by blast
  from 10(1) [OF a 10(4)] obtain m1 where m1: "\<forall>n. m1 \<le> n \<longrightarrow> deep n st1 v = x"
    by blast
  from 10(2) [OF a [symmetric] b cl1] obtain m2
    where m2: "\<forall>n. m2 \<le> n \<longrightarrow> map (deep n st2) ws = xs"
    by blast
  from 10(3) a b have r: "vs = v # ws" "st' = st2"
    by auto
  have same: "deep n st2 v = deep n st1 v" for n
    unfolding new using cl1 below by (rule deep_append)
  have "\<forall>n. max m1 m2 \<le> n \<longrightarrow> map (deep n st') vs = x # xs"
    unfolding r using m1 m2 same by simp
  then show ?case by blast
next
  case (12 p ps st)
  obtain v st1 where a: "alloc (snd p) st = (v, st1)"
    by (cases "alloc (snd p) st")
  obtain gs st2 where b: "alloc_props ps st1 = (gs, st2)"
    by (cases "alloc_props ps st1")
  from alloc_closed(1) [OF a 12(4)] have cl1: "closed_store st1"
    and below: "refs_below (length st1) v"
    by blast+
  from alloc_closed(3) [OF b cl1] obtain new where new: "st2 = st1 @ new"
    by blast
  from 12(1) [OF a 12(4)] obtain m1 where m1: "\<forall>n. m1 \<le> n \<longrightarrow> deep n st1 v = snd p"
    by blast
  from 12(2) [OF a [symmetric] b cl1] obtain m2
    where m2: "\<forall>n. m2 \<le> n \<longrightarrow> map (\<lambda>p. (fst p, deep n st2 (snd p))) gs = ps"
    by blast
  from 12(3) a b have r: "fs = (fst p, v) # gs" "st' = st2"
    by auto
  have same: "deep n st2 v = deep n st1 v" for n
    unfolding new using cl1 below by (rule deep_append)
  have "\<forall>n. max m1 m2 \<le> n \<longrightarrow> map (\<lambda>p. (fst p, deep n st' (snd p))) fs = p # ps"
    unfolding r using m1 m2 same by (simp add: prod_eq_iff)
  then show ?case by blast
qed auto


lemma map_put:
  "map (\<lambda>p. (fst p, g (snd p))) (put k v fs) = put k (g v) (map (\<lambda>p. (fst p, g (snd p))) fs)"
  by (induction fs) auto

lemma reads_as_cell:
  assumes "reads_as st a s"
  obtains fs m where "a < length st" "st ! a = ObjCell fs"
    "\<forall>n. m \<le> n \<longrightarrow> map (\<lambda>p. (fst p, deep n st (snd p))) fs = s"
proof -
  from assms obtain m where m: "\<forall>n. m \<le> n \<longrightarrow> deep n st (HRef a) = JObj s"
    by (auto simp: reads_as_def)
  then have one: "deep (Suc m) st (HRef a) = JObj s"
    by (simp del: deep.simps)
  have len: "a < length st"
  proof (rule ccontr)
    assume "\<not> a < length st"
    then have "deep (Suc m) st (HRef a) = JUndef" by simp
    with one show False by simp
  qed
  with one obtain fs where fs: "st ! a = ObjCell fs"
    by (cases "st ! a") auto
  have "\<forall>n. m \<le> n \<longrightarrow> map (\<lambda>p. (fst p, deep n st (snd p))) fs = s"
  proof (intro allI impI)
    fix n
    assume "m \<le> n"
    then have "deep (Suc n) st (HRef a) = JObj s"
      using m by (simp del: deep.simps)
    with len fs show "map (\<lambda>p. (fst p, deep n st (snd p))) fs = s"
      by simp
  qed
  with len fs show ?thesis
    by (rule that)
qed

lemma reads_as_append:
  assumes "closed_store st" and "reads_as st a s"
  shows "reads_as (st @ new) a s"
proof -
  from assms(2) have "a < length st"
    by (rule reads_as_cell)
  then have "deep n (st @ new) (HRef a) = deep n st (HRef a)" for n
    using assms(1) by (intro deep_append) simp_all
  with assms(2) show ?thesis
    by (simp add: reads_as_def)
qed

text \<open>A spread that adds one primitive property reads as the record with that property put.\<close>

lemma spread_reads_one:
  assumes cl: "closed_store st" and src: "reads_as st src s"
  shows "reads_as (snd (spread src [(k, HPrim v)] st)) (fst (spread src [(k, HPrim v)] st))
           (put k v s)"
proof -
  from src obtain fs m where len: "src < length st" and cell: "st ! src = ObjCell fs"
    and m: "\<forall>n. m \<le> n \<longrightarrow> map (\<lambda>p. (fst p, deep n st (snd p))) fs = s"
    by (rule reads_as_cell)
  have props: "own_props st src = fs"
    using len cell by (simp add: own_props_def)
  let ?st' = "st @ [ObjCell (put k (HPrim v) fs)]"
  have below: "\<forall>p \<in> set fs. refs_below (length st) (snd p)"
    using own_props_below [OF cl, of src] props by (simp add: list_all_iff)
  have same: "map (\<lambda>p. (fst p, deep n ?st' (snd p))) fs
              = map (\<lambda>p. (fst p, deep n st (snd p))) fs" for n
    using below cl by (auto simp: deep_append)
  have "\<forall>n. Suc m \<le> n \<longrightarrow> deep n ?st' (HRef (length st)) = JObj (put k v s)"
  proof (intro allI impI)
    fix n
    assume "Suc m \<le> n"
    then obtain j where j: "n = Suc j" "m \<le> j"
      by (cases n) auto
    have "deep (Suc j) ?st' (HRef (length st))
          = JObj (map (\<lambda>p. (fst p, deep j ?st' (snd p))) (put k (HPrim v) fs))"
      by simp
    also have "\<dots> = JObj (put k v (map (\<lambda>p. (fst p, deep j ?st' (snd p))) fs))"
      by (simp add: map_put)
    also have "\<dots> = JObj (put k v s)"
      using same [of j] m j by simp
    finally show "deep n ?st' (HRef (length st)) = JObj (put k v s)"
      unfolding j(1) .
  qed
  then show ?thesis
    by (auto simp: spread_def props reads_as_def)
qed

lemma spread_reads_two:
  assumes cl: "closed_store st" and src: "reads_as st src s"
  shows "reads_as (snd (spread src [(k, HPrim v), (k', HPrim v')] st))
           (fst (spread src [(k, HPrim v), (k', HPrim v')] st))
           (put k' v' (put k v s))"
proof -
  from src obtain fs m where len: "src < length st" and cell: "st ! src = ObjCell fs"
    and m: "\<forall>n. m \<le> n \<longrightarrow> map (\<lambda>p. (fst p, deep n st (snd p))) fs = s"
    by (rule reads_as_cell)
  have props: "own_props st src = fs"
    using len cell by (simp add: own_props_def)
  let ?st' = "st @ [ObjCell (put k' (HPrim v') (put k (HPrim v) fs))]"
  have below: "\<forall>p \<in> set fs. refs_below (length st) (snd p)"
    using own_props_below [OF cl, of src] props by (simp add: list_all_iff)
  have same: "map (\<lambda>p. (fst p, deep n ?st' (snd p))) fs
              = map (\<lambda>p. (fst p, deep n st (snd p))) fs" for n
    using below cl by (auto simp: deep_append)
  have "\<forall>n. Suc m \<le> n \<longrightarrow> deep n ?st' (HRef (length st)) = JObj (put k' v' (put k v s))"
  proof (intro allI impI)
    fix n
    assume "Suc m \<le> n"
    then obtain j where j: "n = Suc j" "m \<le> j"
      by (cases n) auto
    have "deep (Suc j) ?st' (HRef (length st))
          = JObj (map (\<lambda>p. (fst p, deep j ?st' (snd p)))
                    (put k' (HPrim v') (put k (HPrim v) fs)))"
      by simp
    also have "\<dots> = JObj (put k' v' (put k v (map (\<lambda>p. (fst p, deep j ?st' (snd p))) fs)))"
      by (simp add: map_put)
    also have "\<dots> = JObj (put k' v' (put k v s))"
      using same [of j] m j by simp
    finally show "deep n ?st' (HRef (length st)) = JObj (put k' v' (put k v s))"
      unfolding j(1) .
  qed
  then show ?thesis
    by (auto simp: spread_def props reads_as_def)
qed

lemma fetch_into_store_reads:
  assumes "closed_store st" and "fst (f a) = Inr d"
  shows "\<exists>addr st1. fetch_into_store f a st = (Inr addr, st1) \<and> (\<exists>new. st1 = st @ new)
           \<and> closed_store st1 \<and> addr < length st1 \<and> reads_as st1 addr d"
proof -
  obtain fs st0 where al: "alloc_props d st = (fs, st0)"
    by (cases "alloc_props d st")
  from alloc_closed(3) [OF al assms(1)] have i: "\<exists>new. st0 = st @ new" "closed_store st0"
    "list_all (\<lambda>p. refs_below (length st0) (snd p)) fs"
    by blast+
  from alloc_reads(3) [OF al assms(1)] obtain m
    where m: "\<forall>n. m \<le> n \<longrightarrow> map (\<lambda>p. (fst p, deep n st0 (snd p))) fs = d"
    by blast
  let ?st1 = "st0 @ [ObjCell fs]"
  have f: "fetch_into_store f a st = (Inr (length st0), ?st1)"
    using assms(2) al by (simp add: fetch_into_store_def)
  have cl: "closed_store ?st1"
    using i by (intro closed_store_snoc) auto
  have same: "map (\<lambda>p. (fst p, deep n ?st1 (snd p))) fs
              = map (\<lambda>p. (fst p, deep n st0 (snd p))) fs" for n
    using i by (auto simp: list_all_iff deep_append)
  have "\<forall>n. Suc m \<le> n \<longrightarrow> deep n ?st1 (HRef (length st0)) = JObj d"
  proof (intro allI impI)
    fix n
    assume "Suc m \<le> n"
    then obtain j where j: "n = Suc j" "m \<le> j"
      by (cases n) auto
    have "deep (Suc j) ?st1 (HRef (length st0))
          = JObj (map (\<lambda>p. (fst p, deep j ?st1 (snd p))) fs)"
      by simp
    with same [of j] m j show "deep n ?st1 (HRef (length st0)) = JObj d"
      by simp
  qed
  then have "reads_as ?st1 (length st0) d"
    by (auto simp: reads_as_def)
  with f cl i show ?thesis
    by auto
qed


lemma cache_rel_Some:
  assumes "cache_rel cv c st" and "cv a = Some ev"
  obtains e where "c a = Some e" "timestamp e = timestamp ev" "data e < length st"
    "reads_as st (data e) (data ev)"
  using assms unfolding cache_rel_def by blast

lemma cache_rel_None:
  "cache_rel cv c st \<Longrightarrow> cv a = None \<Longrightarrow> c a = None"
  unfolding cache_rel_def by blast

lemma cache_rel_append:
  assumes "closed_store st" and "cache_rel cv c st"
  shows "cache_rel cv c (st @ new)"
  unfolding cache_rel_def
proof (intro allI conjI impI)
  fix b
  assume "cv b = None"
  with assms(2) show "c b = None"
    by (rule cache_rel_None)
next
  fix b ev
  assume "cv b = Some ev"
  with assms(2) obtain e where e: "c b = Some e" "timestamp e = timestamp ev"
    "data e < length st" "reads_as st (data e) (data ev)"
    by (rule cache_rel_Some)
  from e(4) have "reads_as (st @ new) (data e) (data ev)"
    using assms(1) by (intro reads_as_append)
  with e show "\<exists>e. c b = Some e \<and> timestamp e = timestamp ev \<and> data e < length (st @ new)
       \<and> reads_as (st @ new) (data e) (data ev)"
    by simp
qed

lemma cache_rel_update:
  assumes "cache_rel cv c st" and "addr < length st" and "reads_as st addr d"
  shows "cache_rel (cv(a \<mapsto> \<lparr>data = d, timestamp = now\<rparr>))
           (c(a \<mapsto> \<lparr>data = addr, timestamp = now\<rparr>)) st"
  unfolding cache_rel_def
proof (intro allI conjI impI)
  fix b
  assume "(cv(a \<mapsto> \<lparr>data = d, timestamp = now\<rparr>)) b = None"
  then have "b \<noteq> a" "cv b = None"
    by (auto split: if_splits)
  with assms(1) show "(c(a \<mapsto> \<lparr>data = addr, timestamp = now\<rparr>)) b = None"
    using cache_rel_None by simp
next
  fix b ev
  assume ev: "(cv(a \<mapsto> \<lparr>data = d, timestamp = now\<rparr>)) b = Some ev"
  show "\<exists>e. (c(a \<mapsto> \<lparr>data = addr, timestamp = now\<rparr>)) b = Some e
          \<and> timestamp e = timestamp ev \<and> data e < length st
          \<and> reads_as st (data e) (data ev)"
  proof (cases "b = a")
    case True
    with ev assms(2,3) show ?thesis by auto
  next
    case False
    with ev have "cv b = Some ev" by simp
    with assms(1) obtain e where "c b = Some e" "timestamp e = timestamp ev"
      "data e < length st" "reads_as st (data e) (data ev)"
      by (rule cache_rel_Some)
    with False show ?thesis by simp
  qed
qed

text \<open>
  The two models of \<open>getServerStatus\<close> agree: from related caches they throw the same
  error or return a record and an object that reads as that record, and they leave
  related caches.
\<close>

lemma getServerStatus_store_refines:
  assumes cl: "closed_store st" and rel: "cache_rel cv c st"
    and v: "getServerStatus f cv now a = (rv, cv', q)"
    and s: "getServerStatus_store (fetch_into_store f) c st now a = (rs, c', st')"
  shows "(case rv of
            Inl err \<Rightarrow> rs = Inl err
          | Inr status \<Rightarrow> (\<exists>r. rs = Inr r \<and> reads_as st' r status))
         \<and> cache_rel cv' c' st' \<and> closed_store st'"
  using v
proof (cases rule: getServerStatus_cases)
  case (hit ev)
  from rel hit(1) obtain e where e: "c a = Some e" "timestamp e = timestamp ev"
    "data e < length st" "reads_as st (data e) (data ev)"
    by (rule cache_rel_Some)
  let ?sp = "spread (data e) [(''fromCache'', HPrim (JBool True))] st"
  from s e hit(2) have r: "rs = Inr (fst ?sp)" "c' = c" "st' = snd ?sp"
    by (simp_all add: getServerStatus_store_def split: prod.splits)
  have "reads_as (snd ?sp) (fst ?sp) (put ''fromCache'' (JBool True) (data ev))"
    using cl e(4) by (rule spread_reads_one)
  moreover have "cache_rel cv c (snd ?sp)"
    using cache_rel_append [OF cl rel] by (simp add: spread_def)
  moreover have "closed_store (snd ?sp)"
    using cl by (intro spread_closed) simp_all
  ultimately show ?thesis
    using hit r by simp
next
  case (fresh d)
  from fresh(2) have fd: "fst (f a) = Inr d" by simp
  from fetch_into_store_reads [where f = f and a = a, OF cl fd] obtain addr st1 where
    f1: "fetch_into_store f a st = (Inr addr, st1)" and grow: "\<exists>new. st1 = st @ new"
    and cl1: "closed_store st1" and len: "addr < length st1" and rd: "reads_as st1 addr d"
    by blast
  let ?sp = "spread addr [(''fromCache'', HPrim (JBool False))] st1"
  have stale: "\<And>e. c a = Some e \<Longrightarrow> \<not> now - timestamp e < cacheTimeout"
  proof -
    fix e
    assume ce: "c a = Some e"
    show "\<not> now - timestamp e < cacheTimeout"
    proof (cases "cv a")
      case None
      with rel have "c a = None" by (rule cache_rel_None)
      with ce show ?thesis by simp
    next
      case (Some ev)
      with rel obtain e' where "c a = Some e'" "timestamp e' = timestamp ev"
        by (rule cache_rel_Some)
      with ce Some fresh(1) show ?thesis by simp
    qed
  qed
  from s f1 stale have r: "rs = Inr (fst ?sp)"
    "c' = c(a \<mapsto> \<lparr>data = addr, timestamp = now\<rparr>)" "st' = snd ?sp"
    by (cases "c a"; simp add: getServerStatus_store_def split: prod.splits)+
  have "reads_as (snd ?sp) (fst ?sp) (put ''fromCache'' (JBool False) d)"
    using cl1 rd by (rule spread_reads_one)
  moreover have "cache_rel (cv(a \<mapsto> \<lparr>data = d, timestamp = now\<rparr>))
                   (c(a \<mapsto> \<lparr>data = addr, timestamp = now\<rparr>)) st1"
  proof -
    from grow obtain new where "st1 = st @ new" by blast
    with cache_rel_append [OF cl rel, of new] have "cache_rel cv c st1" by simp
    then show ?thesis using len rd by (rule cache_rel_update)
  qed
  then have "cache_rel (cv(a \<mapsto> \<lparr>data = d, timestamp = now\<rparr>))
                   (c(a \<mapsto> \<lparr>data = addr, timestamp = now\<rparr>)) (snd ?sp)"
    using cache_rel_append [OF cl1] by (simp add: spread_def)
  moreover have "closed_store (snd ?sp)"
    using cl1 by (intro spread_closed) simp_all
  ultimately show ?thesis
    using fresh r by simp
next
  case (stale ev err)
  from rel stale(1) obtain e where e: "c a = Some e" "timestamp e = timestamp ev"
    "data e < length st" "reads_as st (data e) (data ev)"
    by (rule cache_rel_Some)
  from stale(3) have f1: "fetch_into_store f a st = (Inl err, st)"
    by (simp add: fetch_into_store_def)
  let ?sp = "spread (data e) [(''fromCache'', HPrim (JBool True)),
                              (''error'', HPrim (JBool True))] st"
  from s e stale(2) f1 have r: "rs = Inr (fst ?sp)" "c' = c" "st' = snd ?sp"
    by (simp_all add: getServerStatus_store_def split: prod.splits)
  have "reads_as (snd ?sp) (fst ?sp)
          (put ''error'' (JBool True) (put ''fromCache'' (JBool True) (data ev)))"
    using cl e(4) by (rule spread_reads_two)
  moreover have "cache_rel cv c (snd ?sp)"
    using cache_rel_append [OF cl rel] by (simp add: spread_def)
  moreover have "closed_store (snd ?sp)"
    using cl by (intro spread_closed) simp_all
  ultimately show ?thesis
    using stale r by simp
next
  case (thrown err)
  from rel thrown(1) have "c a = None"
    by (rule cache_rel_None)
  moreover from thrown(2) have "fetch_into_store f a st = (Inl err, st)"
    by (simp add: fetch_into_store_def)
  ultimately have "rs = Inl err" "c' = c" "st' = st"
    using s by (simp_all add: getServerStatus_store_def)
  with thrown rel cl show ?thesis
    by simp
qed

end
